theory Spec2Isabelle
  imports Complex_Main
begin

section \<open>Billiards engine of \<open>src/components/games/Snake.tsx\<close>\<close>

text \<open>
  The component \<open>Billiards\<close> keeps its state in React state variables and in refs. The
  embedding gathers them in one record that every handler takes and returns. A React
  setter \<open>setX v\<close> is the field update \<open>X := v\<close>. The refs \<open>modeRef\<close>, \<open>turnRef\<close>,
  \<open>playerGroupsRef\<close> and \<open>placingBallRef\<close> are fields of their own, because the handlers
  read the refs and write the state variables; \<open>syncRefs\<close> is the copy the four
  \<open>useEffect\<close> hooks make after a render. JavaScript numbers are modelled as reals
  (coordinates, velocities) and as integers (ball ids, scores): rounding and overflow of
  doubles are not modelled, and the one place where the source produces \<open>NaN\<close> (two
  coinciding centres) is an explicit \<open>None\<close>. Calls of \<open>playSound\<close> and of the callback
  \<open>onGameEnd\<close> are appended to the output traces \<open>played\<close> and \<open>gameEnds\<close>.
\<close>

subsection \<open>Constants\<close>

definition TABLE_WIDTH :: real where "TABLE_WIDTH = 800"
definition TABLE_HEIGHT :: real where "TABLE_HEIGHT = 400"
definition BALL_RADIUS :: real where "BALL_RADIUS = 12"
definition POCKET_RADIUS :: real where "POCKET_RADIUS = 28"
definition SUB_STEPS :: nat where "SUB_STEPS = 8"
definition DECELERATION :: real where "DECELERATION = 45 / 1000"
definition WALL_BOUNCE :: real where "WALL_BOUNCE = 75 / 100"
definition BALL_RESTITUTION :: real where "BALL_RESTITUTION = 92 / 100"
definition MAX_POWER :: real where "MAX_POWER = 45"
definition STOP_THRESHOLD :: real where "STOP_THRESHOLD = 8 / 100"

definition POCKETS :: "(real \<times> real) list" where
  "POCKETS =
     [(0, 0), (TABLE_WIDTH / 2, - 8), (TABLE_WIDTH, 0),
      (0, TABLE_HEIGHT), (TABLE_WIDTH / 2, TABLE_HEIGHT + 8), (TABLE_WIDTH, TABLE_HEIGHT)]"

subsection \<open>Data\<close>

datatype BilliardsMode = Mode8BALL | Mode9BALL

datatype GroupType = SOLIDS | STRIPES

datatype BallType = CUE | SOLID | STRIPE | EIGHT | NINE

datatype GameState = SETUP | PLAYING | ROUND_OVER | GAMEOVER

text \<open>
  The foul texts of \<open>handleTurnEnd\<close> are Chinese string literals; each is one constructor:
  cue ball pocketed, no ball hit, lowest-numbered ball not hit, the black 8 must be hit,
  own target group not hit.
\<close>

datatype Foul = CueBallPocketed | NoBallHit | LowestNotHit | MustHitEight | WrongGroup

datatype Sound = SndClick | SndWrong | SndWin | SndBilliardPocket | SndBilliardShot real

text \<open>Fields \<open>id\<close>, \<open>x\<close>, \<open>y\<close> and \<open>type\<close> of the interface \<open>Ball\<close> carry the suffix \<open>_b\<close>.\<close>

record Ball =
  id_b :: int
  x_b :: real
  y_b :: real
  vx :: real
  vy :: real
  active :: bool
  type_b :: BallType

record TurnInfo =
  pottedThisTurn :: bool
  firstHitId :: "int option"
  nineBallPotted :: bool

record PlayerGroups =
  g1 :: "GroupType option"
  g2 :: "GroupType option"

record MatchConfig =
  totalFrames :: int
  pointsPerMatch :: int

record MatchScore =
  p1 :: int
  p2 :: int

text \<open>
  The third argument of \<open>onGameEnd\<close>: the score string \<open>p1-p2\<close> is kept as the pair of
  its numbers, the tag list \<open>[mode, BOn]\<close> as the pair of the mode and \<open>n\<close>.
\<close>

record MatchDetails =
  opponent :: string
  score :: "int \<times> int"
  matchTags :: "BilliardsMode \<times> int"

record Game =
  mode :: BilliardsMode
  gameState :: GameState
  matchConfig :: MatchConfig
  matchScore :: MatchScore
  turn :: nat
  winner :: "string option"
  matchWinner :: "string option"
  playerGroups :: PlayerGroups
  isMoving :: bool
  dragStart :: "(real \<times> real) option"
  currentDrag :: "(real \<times> real) option"
  power :: real
  placingBall :: bool
  validPlacement :: bool
  foulMessage :: "Foul option"
  balls :: "Ball list"
  turnInfo :: TurnInfo
  modeRef :: BilliardsMode
  turnRef :: nat
  playerGroupsRef :: PlayerGroups
  placingBallRef :: bool
  username :: string
  player2 :: "string option"
  played :: "Sound list"
  gameEnds :: "(int \<times> bool \<times> MatchDetails) list"

definition syncRefs :: "Game \<Rightarrow> Game" where
  "syncRefs s =
     s\<lparr>modeRef := mode s, turnRef := turn s, playerGroupsRef := playerGroups s,
       placingBallRef := placingBall s\<rparr>"

definition playSound :: "Sound \<Rightarrow> Game \<Rightarrow> Game" where
  "playSound sound s = s\<lparr>played := played s @ [sound]\<rparr>"

definition emptyTurnInfo :: TurnInfo where
  "emptyTurnInfo = \<lparr>pottedThisTurn = False, firstHitId = None, nineBallPotted = False\<rparr>"

text \<open>\<open>currentGroups[currentTurn]\<close>: a key other than 1 and 2 reads \<open>undefined\<close>, which is
  falsy like \<open>null\<close>.\<close>

definition groupOf :: "PlayerGroups \<Rightarrow> nat \<Rightarrow> GroupType option" where
  "groupOf pg t = (if t = 1 then g1 pg else if t = 2 then g2 pg else None)"

text \<open>Mutation of the object that \<open>find\<close> returns: the first element that satisfies the
  predicate is updated in place, the list keeps its order.\<close>

fun mutateFirst :: "('a \<Rightarrow> bool) \<Rightarrow> ('a \<Rightarrow> 'a) \<Rightarrow> 'a list \<Rightarrow> 'a list" where
  "mutateFirst P f [] = []"
| "mutateFirst P f (b # bs) = (if P b then f b # bs else b # mutateFirst P f bs)"

definition isCue :: "Ball \<Rightarrow> bool" where
  "isCue b = (id_b b = 0)"

definition opponentOf :: "nat \<Rightarrow> nat" where
  "opponentOf currentTurn = (if currentTurn = 1 then 2 else 1)"

definition shooterName :: "nat \<Rightarrow> string" where
  "shooterName currentTurn = (if currentTurn = 1 then ''P1'' else ''P2'')"

definition opponentName :: "nat \<Rightarrow> string" where
  "opponentName currentTurn = (if currentTurn = 1 then ''P2'' else ''P1'')"

subsection \<open>Match controller: \<open>endRound\<close>\<close>

definition details :: "Game \<Rightarrow> MatchScore \<Rightarrow> MatchDetails" where
  "details s newScore =
     \<lparr>opponent = (case player2 s of Some n \<Rightarrow> (if n = [] then ''Player 2'' else n)
                   | None \<Rightarrow> ''Player 2''),
      score = (p1 newScore, p2 newScore),
      matchTags = (mode s, totalFrames (matchConfig s))\<rparr>"

definition endRound :: "string \<Rightarrow> Game \<Rightarrow> Game" where
  "endRound roundWinnerName s0 =
     (let s = playSound SndWin s0;
          newScore =
            (if roundWinnerName = ''P1'' then (matchScore s)\<lparr>p1 := p1 (matchScore s) + 1\<rparr>
             else if roundWinnerName = username s
             then (matchScore s)\<lparr>p1 := p1 (matchScore s) + 1\<rparr>
             else (matchScore s)\<lparr>p2 := p2 (matchScore s) + 1\<rparr>);
          s1 = s\<lparr>matchScore := newScore, winner := Some roundWinnerName\<rparr>;
          targetWins = \<lceil>real_of_int (totalFrames (matchConfig s)) / 2\<rceil>
      in if p1 newScore \<ge> targetWins then
           s1\<lparr>matchWinner := Some ''P1'', gameState := GAMEOVER,
              gameEnds := gameEnds s1 @
                [(pointsPerMatch (matchConfig s), True, details s newScore)]\<rparr>
         else if p2 newScore \<ge> targetWins then
           s1\<lparr>matchWinner := Some ''P2'', gameState := GAMEOVER,
              gameEnds := gameEnds s1 @
                [(- pointsPerMatch (matchConfig s), False, details s newScore)]\<rparr>
         else s1\<lparr>gameState := ROUND_OVER\<rparr>)"

subsection \<open>Rule engine: \<open>handlePotLogic\<close> and \<open>handleTurnEnd\<close>\<close>

text \<open>Truthiness of \<open>turnInfoRef.current.firstHitId\<close>: \<open>null\<close> and \<open>0\<close> are falsy.\<close>

definition truthyId :: "int option \<Rightarrow> bool" where
  "truthyId h = (case h of None \<Rightarrow> False | Some i \<Rightarrow> i \<noteq> 0)"

definition assignGroups :: "int list \<Rightarrow> Game \<Rightarrow> Game" where
  "assignGroups ids s =
     (if modeRef s = Mode8BALL \<and> g1 (playerGroupsRef s) = None then
        (case find (\<lambda>i. i \<noteq> 0 \<and> i \<noteq> 8) ids of
           None \<Rightarrow> s
         | Some first \<Rightarrow>
             (let type = (if first < 8 then SOLIDS else STRIPES);
                  other = (if first < 8 then STRIPES else SOLIDS)
              in s\<lparr>playerGroups :=
                     \<lparr>g1 = Some (if turnRef s = 1 then type else other),
                      g2 = Some (if turnRef s = 2 then type else other)\<rparr>\<rparr>))
      else s)"

definition handlePotLogic :: "int list \<Rightarrow> Game \<Rightarrow> Game" where
  "handlePotLogic ids s =
     (if 0 \<in> set ids then s
      else
        (let currentMode = modeRef s; currentTurn = turnRef s;
             s1 = assignGroups ids s
         in if currentMode = Mode8BALL \<and> 8 \<in> set ids then
              (let actives = filter (\<lambda>b. active b \<and> id_b b \<noteq> 0 \<and> id_b b \<noteq> 8) (balls s1)
               in endRound
                    (if length actives = 0 \<and> truthyId (firstHitId (turnInfo s1))
                     then shooterName currentTurn else opponentName currentTurn) s1)
            else s1))"

definition lowestActive :: "Ball list \<Rightarrow> int" where
  "lowestActive bs =
     foldl (\<lambda>m b. if id_b b \<noteq> 0 \<and> active b \<and> id_b b < m then id_b b else m) 999 bs"

definition hitGroup :: "Ball \<Rightarrow> GroupType option" where
  \<comment> \<open>\<open>None\<close> stands for the source's third value \<open>'EIGHT'\<close>.\<close>
  "hitGroup first =
     (if id_b first < 8 then Some SOLIDS else if id_b first > 8 then Some STRIPES else None)"

definition onEight :: "Ball list \<Rightarrow> GroupType option \<Rightarrow> bool" where
  "onEight bs g =
     (length (filter (\<lambda>b. active b \<and> id_b b \<noteq> 0 \<and> id_b b \<noteq> 8 \<and>
        ((id_b b < 8 \<and> g = Some SOLIDS) \<or> (id_b b > 8 \<and> g = Some STRIPES))) bs) = 0)"

text \<open>The first part of \<open>handleTurnEnd\<close>: the chain of \<open>if\<close>s that sets \<open>foul\<close>, with the
  mutation of the cue ball and \<open>setPlacingBall(true)\<close>.\<close>

definition judge :: "Game \<Rightarrow> Foul option \<times> Game" where
  "judge s =
     (let cue = find isCue (balls s);
          currentMode = modeRef s; currentTurn = turnRef s; currentGroups = playerGroupsRef s
      in if (case cue of None \<Rightarrow> True | Some c \<Rightarrow> \<not> active c) then
           (Some CueBallPocketed,
            s\<lparr>balls := mutateFirst isCue (\<lambda>c. c\<lparr>active := True, vx := 0, vy := 0\<rparr>) (balls s),
              placingBall := True\<rparr>)
         else if firstHitId (turnInfo s) = None then (Some NoBallHit, s\<lparr>placingBall := True\<rparr>)
         else if currentMode = Mode9BALL then
           (if firstHitId (turnInfo s) \<noteq> Some (lowestActive (balls s))
            then (Some LowestNotHit, s\<lparr>placingBall := True\<rparr>) else (None, s))
         else if currentMode = Mode8BALL \<and> groupOf currentGroups currentTurn \<noteq> None then
           (case find (\<lambda>b. Some (id_b b) = firstHitId (turnInfo s)) (balls s) of
              None \<Rightarrow> (None, s)
            | Some first \<Rightarrow>
                (let oe = onEight (balls s) (groupOf currentGroups currentTurn)
                 in if (if oe then id_b first \<noteq> 8
                        else hitGroup first \<noteq> groupOf currentGroups currentTurn)
                    then (Some (if oe then MustHitEight else WrongGroup),
                          s\<lparr>placingBall := True\<rparr>)
                    else (None, s)))
         else (None, s))"

text \<open>The second part: turn switch, round win in 9-ball (which returns before the reset
  of \<open>turnInfoRef\<close>), and the reset. The timer that clears the foul message two seconds
  later is not part of the evaluation.\<close>

definition handleTurnEnd :: "Game \<Rightarrow> Game" where
  "handleTurnEnd s =
     (case judge s of
        (Some foul, s1) \<Rightarrow>
          (playSound SndWrong (s1\<lparr>foulMessage := Some foul\<rparr>))
            \<lparr>turn := opponentOf (turnRef s), turnInfo := emptyTurnInfo\<rparr>
      | (None, s1) \<Rightarrow>
          (if pottedThisTurn (turnInfo s1) then
             (if modeRef s = Mode9BALL \<and> nineBallPotted (turnInfo s1)
              then endRound (shooterName (turnRef s)) s1
              else (playSound SndClick s1)\<lparr>turnInfo := emptyTurnInfo\<rparr>)
           else s1\<lparr>turn := opponentOf (turnRef s), turnInfo := emptyTurnInfo\<rparr>))"

subsection \<open>Physics: one frame of \<open>updatePhysics\<close>\<close>

definition pocketed :: "Ball \<Rightarrow> bool" where
  "pocketed b =
     list_ex (\<lambda>p. (x_b b - fst p)\<^sup>2 + (y_b b - snd p)\<^sup>2 < (POCKET_RADIUS * (12 / 10))\<^sup>2) POCKETS"

text \<open>Position update and linear deceleration of one ball; the flag is the assignment
  \<open>moving = true\<close>.\<close>

definition integrate :: "Ball \<Rightarrow> Ball \<times> bool" where
  "integrate b =
     (let b1 = b\<lparr>x_b := x_b b + vx b / real SUB_STEPS, y_b := y_b b + vy b / real SUB_STEPS\<rparr>;
          spd = sqrt (vx b1 * vx b1 + vy b1 * vy b1)
      in if spd > 0 then
           (let nSpd = max 0 (spd - DECELERATION / real SUB_STEPS)
            in if nSpd < STOP_THRESHOLD then (b1\<lparr>vx := 0, vy := 0\<rparr>, False)
               else (b1\<lparr>vx := vx b1 * (nSpd / spd), vy := vy b1 * (nSpd / spd)\<rparr>, True))
         else (b1, False))"

text \<open>The four cushion tests, in the order of the source.\<close>

definition wallLeft :: "Ball \<Rightarrow> Ball" where
  "wallLeft b =
     (if x_b b < BALL_RADIUS then b\<lparr>x_b := BALL_RADIUS, vx := \<bar>vx b\<bar> * WALL_BOUNCE\<rparr> else b)"

definition wallRight :: "Ball \<Rightarrow> Ball" where
  "wallRight b =
     (if x_b b > TABLE_WIDTH - BALL_RADIUS
      then b\<lparr>x_b := TABLE_WIDTH - BALL_RADIUS, vx := - \<bar>vx b\<bar> * WALL_BOUNCE\<rparr> else b)"

definition wallTop :: "Ball \<Rightarrow> Ball" where
  "wallTop b =
     (if y_b b < BALL_RADIUS then b\<lparr>y_b := BALL_RADIUS, vy := \<bar>vy b\<bar> * WALL_BOUNCE\<rparr> else b)"

definition wallBottom :: "Ball \<Rightarrow> Ball" where
  "wallBottom b =
     (if y_b b > TABLE_HEIGHT - BALL_RADIUS
      then b\<lparr>y_b := TABLE_HEIGHT - BALL_RADIUS, vy := - \<bar>vy b\<bar> * WALL_BOUNCE\<rparr> else b)"

definition walls :: "Ball \<Rightarrow> Ball" where
  "walls b = wallBottom (wallTop (wallRight (wallLeft b)))"

text \<open>The body of \<open>balls.forEach\<close> for a ball that is not skipped: the new ball, whether
  it set \<open>moving\<close>, and whether it was pushed on \<open>potted\<close>.\<close>

definition moveBall :: "Ball \<Rightarrow> Ball \<times> bool \<times> bool" where
  "moveBall b =
     (let (b1, mv) = integrate b; b2 = walls b1
      in if pocketed b2 then (b2\<lparr>active := False, vx := 0, vy := 0\<rparr>, mv, True)
         else (b2, mv, False))"

definition skipped :: "bool \<Rightarrow> Ball \<Rightarrow> bool" where
  "skipped placing b = (if active b then placing \<and> id_b b = 0 else True)"

definition stepBall :: "bool \<Rightarrow> Ball \<Rightarrow> Ball \<times> bool \<times> bool" where
  "stepBall placing b = (if skipped placing b then (b, False, False) else moveBall b)"

fun stepBalls :: "bool \<Rightarrow> Ball list \<Rightarrow> Ball list \<times> bool \<times> int list" where
  "stepBalls placing [] = ([], False, [])"
| "stepBalls placing (b # bs) =
     (let (b', mv, pot) = stepBall placing b;
          (bs', mv', pots) = stepBalls placing bs
      in (b' # bs', (if mv then True else mv'), (if pot then id_b b' # pots else pots)))"

definition touching :: "Ball \<Rightarrow> Ball \<Rightarrow> bool" where
  "touching b1 b2 =
     (let dx = x_b b2 - x_b b1; dy = y_b b2 - y_b b1; d2 = dx * dx + dy * dy
      in d2 < (BALL_RADIUS * 2)\<^sup>2)"

text \<open>The contact normal \<open>(nx, ny)\<close> of a pair. With coinciding centres the source divides
  zero by zero and every coordinate it then writes is \<open>NaN\<close>: that is \<open>None\<close> here.\<close>

definition normal :: "Ball \<Rightarrow> Ball \<Rightarrow> (real \<times> real) option" where
  "normal b1 b2 =
     (let dx = x_b b2 - x_b b1; dy = y_b b2 - y_b b1; d2 = dx * dx + dy * dy; d = sqrt d2
      in if d = 0 then None else Some (dx / d, dy / d))"

definition collide :: "Ball \<Rightarrow> Ball \<Rightarrow> (Ball \<times> Ball) option" where
  "collide b1 b2 =
     (case normal b1 b2 of
        None \<Rightarrow> None
      | Some (nx, ny) \<Rightarrow>
          (let dx = x_b b2 - x_b b1; dy = y_b b2 - y_b b1; d2 = dx * dx + dy * dy; d = sqrt d2;
               corr = (BALL_RADIUS * 2 - d) * (5 / 10);
               v1n = vx b1 * nx + vy b1 * ny; v2n = vx b2 * nx + vy b2 * ny;
               tx = - ny; ty = nx;
               v1t = vx b1 * tx + vy b1 * ty; v2t = vx b2 * tx + vy b2 * ty;
               v1nn = (v1n * (1 - BALL_RESTITUTION) + v2n * (1 + BALL_RESTITUTION)) / 2;
               v2nn = (v1n * (1 + BALL_RESTITUTION) + v2n * (1 - BALL_RESTITUTION)) / 2
           in Some
                (b1\<lparr>x_b := x_b b1 - nx * corr, y_b := y_b b1 - ny * corr,
                    vx := v1nn * nx + v1t * tx, vy := v1nn * ny + v1t * ty\<rparr>,
                 b2\<lparr>x_b := x_b b2 + nx * corr, y_b := y_b b2 + ny * corr,
                    vx := v2nn * nx + v2t * tx, vy := v2nn * ny + v2t * ty\<rparr>)))"

text \<open>The two assignments of \<open>firstHitId\<close> after a collision of \<open>b1\<close> and \<open>b2\<close>.\<close>

definition recordHit :: "Ball \<Rightarrow> Ball \<Rightarrow> int option \<Rightarrow> int option" where
  "recordHit b1 b2 h =
     (let h1 = (if id_b b1 = 0 \<and> h = None then Some (id_b b2) else h)
      in if id_b b2 = 0 \<and> h1 = None then Some (id_b b1) else h1)"

definition inContact :: "bool \<Rightarrow> Ball \<Rightarrow> Ball \<Rightarrow> bool" where
  "inContact placing b1 b2 =
     (if active b1 then
        (if active b2 then
           (if placing \<and> (id_b b1 = 0 \<or> id_b b2 = 0) then False else touching b1 b2)
         else False)
      else False)"

text \<open>The body of the inner loop for the pair \<open>(balls[i], balls[j])\<close>, threading
  \<open>firstHitId\<close>.\<close>

definition pairStep ::
  "bool \<Rightarrow> Ball \<Rightarrow> Ball \<Rightarrow> int option \<Rightarrow> (Ball \<times> Ball \<times> int option) option" where
  "pairStep placing b1 b2 h =
     (if inContact placing b1 b2 then
        (case collide b1 b2 of
           None \<Rightarrow> None
         | Some (c1, c2) \<Rightarrow> Some (c1, c2, recordHit c1 c2 h))
      else Some (b1, b2, h))"

text \<open>The loops \<open>for i\<close> and \<open>for j = i + 1\<close>: the balls are objects mutated in place, so
  the inner loop carries \<open>balls[i]\<close> along the balls behind it, and the outer loop goes on
  with the balls the inner loop left.\<close>

fun innerLoop ::
  "bool \<Rightarrow> Ball \<Rightarrow> Ball list \<Rightarrow> int option \<Rightarrow> (Ball \<times> Ball list \<times> int option) option" where
  "innerLoop placing b1 [] h = Some (b1, [], h)"
| "innerLoop placing b1 (b2 # rest) h =
     (case pairStep placing b1 b2 h of
        None \<Rightarrow> None
      | Some (c1, c2, h1) \<Rightarrow>
          (case innerLoop placing c1 rest h1 of
             None \<Rightarrow> None
           | Some (d1, rest', h2) \<Rightarrow> Some (d1, c2 # rest', h2)))"

text \<open>The counter of \<open>outerFrom\<close> is the number of iterations the loop \<open>for i\<close> has
  left, \<open>balls.length - i\<close>; its list holds the balls from index \<open>i\<close> on.\<close>

fun outerFrom ::
  "bool \<Rightarrow> nat \<Rightarrow> Ball list \<Rightarrow> int option \<Rightarrow> (Ball list \<times> int option) option" where
  "outerFrom placing 0 bs h = Some (bs, h)"
| "outerFrom placing (Suc n) [] h = Some ([], h)"
| "outerFrom placing (Suc n) (b1 # rest) h =
     (case innerLoop placing b1 rest h of
        None \<Rightarrow> None
      | Some (c1, rest', h1) \<Rightarrow>
          (case outerFrom placing n rest' h1 of
             None \<Rightarrow> None
           | Some (rest'', h2) \<Rightarrow> Some (c1 # rest'', h2)))"

definition outerLoop :: "bool \<Rightarrow> Ball list \<Rightarrow> int option \<Rightarrow> (Ball list \<times> int option) option" where
  "outerLoop placing bs h = outerFrom placing (length bs) bs h"

text \<open>One sub-step on the state and the frame's locals \<open>moving\<close> and \<open>potted\<close>.\<close>

definition subStep :: "Game \<times> bool \<times> int list \<Rightarrow> (Game \<times> bool \<times> int list) option" where
  "subStep st =
     (case st of (s, moving, potted) \<Rightarrow>
        (let (bs1, mv, pots) = stepBalls (placingBallRef s) (balls s);
             ti1 = (if 9 \<in> set pots then (turnInfo s)\<lparr>nineBallPotted := True\<rparr> else turnInfo s)
         in case outerLoop (placingBallRef s) bs1 (firstHitId ti1) of
              None \<Rightarrow> None
            | Some (bs2, h) \<Rightarrow>
                Some (s\<lparr>balls := bs2, turnInfo := ti1\<lparr>firstHitId := h\<rparr>,
                        played := played s @ replicate (length pots) SndBilliardPocket\<rparr>,
                      (if mv then True else moving), potted @ pots)))"

fun subSteps :: "nat \<Rightarrow> Game \<times> bool \<times> int list \<Rightarrow> (Game \<times> bool \<times> int list) option" where
  "subSteps 0 st = Some st"
| "subSteps (Suc n) st = (case subStep st of None \<Rightarrow> None | Some st' \<Rightarrow> subSteps n st')"

text \<open>The end of the frame. The test \<open>!moving && isMoving\<close> reads the state variable
  \<open>isMoving\<close> of the render the function belongs to, so the value before
  \<open>setIsMoving(moving)\<close>. Which render's \<open>updatePhysics\<close> the animation loop holds is not
  modelled: \<open>endFrame\<close> reads the field \<open>isMoving\<close> of the state it is given.\<close>

definition endFrame :: "Game \<Rightarrow> Game \<times> bool \<times> int list \<Rightarrow> Game" where
  "endFrame s st =
     (case st of (s1, moving, potted) \<Rightarrow>
        (let s2 = (if length potted > 0
                   then handlePotLogic potted
                          (s1\<lparr>turnInfo := (turnInfo s1)\<lparr>pottedThisTurn := True\<rparr>\<rparr>)
                   else s1);
             s3 = s2\<lparr>isMoving := moving\<rparr>
         in if moving then s3 else if isMoving s then handleTurnEnd s3 else s3))"

definition updatePhysics :: "Game \<Rightarrow> Game option" where
  "updatePhysics s =
     (case subSteps SUB_STEPS (s, False, []) of
        None \<Rightarrow> None
      | Some st \<Rightarrow> Some (endFrame s st))"

subsection \<open>Cue-ball placement: \<open>handleMouseDown\<close>\<close>

text \<open>The argument is the table position \<open>getTablePos\<close> computed from the event.\<close>

definition inBounds :: "real \<times> real \<Rightarrow> bool" where
  "inBounds pos =
     (fst pos \<ge> BALL_RADIUS \<and> fst pos \<le> TABLE_WIDTH - BALL_RADIUS \<and>
      snd pos \<ge> BALL_RADIUS \<and> snd pos \<le> TABLE_HEIGHT - BALL_RADIUS)"

definition overlapsObject :: "real \<times> real \<Rightarrow> Ball list \<Rightarrow> bool" where
  "overlapsObject pos bs =
     list_ex (\<lambda>b. id_b b \<noteq> 0 \<and> active b \<and>
        (x_b b - fst pos)\<^sup>2 + (y_b b - snd pos)\<^sup>2 < (BALL_RADIUS * 2)\<^sup>2) bs"

definition placementValid :: "real \<times> real \<Rightarrow> Ball list \<Rightarrow> bool" where
  "placementValid pos bs =
     (let v = inBounds pos in if v \<and> overlapsObject pos bs then False else v)"

definition handleMouseDown :: "real \<times> real \<Rightarrow> Game \<Rightarrow> Game" where
  "handleMouseDown pos s =
     (if isMoving s \<or> gameState s \<noteq> PLAYING then s
      else if placingBall s then
        (if placementValid pos (balls s) then
           (case find isCue (balls s) of
              None \<Rightarrow> s
            | Some cue \<Rightarrow>
                playSound SndClick
                  (s\<lparr>balls := mutateFirst isCue (\<lambda>c. c\<lparr>x_b := fst pos, y_b := snd pos\<rparr>) (balls s),
                     placingBall := False\<rparr>))
         else playSound SndWrong s)
      else s\<lparr>dragStart := Some pos, currentDrag := Some pos, power := 0\<rparr>)"

subsection \<open>Racking: \<open>initRound\<close>\<close>

text \<open>The results of \<open>Math.random()\<close> are a parameter: \<open>rnd k\<close> is the result of the
  \<open>k\<close>-th call of a round start, a number in \<open>[0, 1)\<close>. Every object ball makes two
  calls, for \<open>x\<close> first and then for \<open>y\<close>.\<close>

definition startX :: real where "startX = 600"
definition startY :: real where "startY = TABLE_HEIGHT / 2"

definition dist_rack :: real where
  "dist_rack = sqrt ((2 * BALL_RADIUS)\<^sup>2 - BALL_RADIUS\<^sup>2) + 5 / 10"

definition pattern :: "int list list" where
  "pattern = [[1], [2, 9], [3, 8, 10], [4, 15, 12, 5], [6, 7, 13, 14, 11]]"

fun rackRow ::
  "(nat \<Rightarrow> real) \<Rightarrow> nat \<Rightarrow> nat \<Rightarrow> nat \<Rightarrow> nat \<Rightarrow> int list \<Rightarrow> Ball list" where
  "rackRow rnd k colIndex len rowIndex [] = []"
| "rackRow rnd k colIndex len rowIndex (i # row) =
     \<lparr>id_b = i,
      x_b = (startX + real colIndex * dist_rack) + rnd k * (1 / 10),
      y_b = (startY + (real rowIndex * 2 * BALL_RADIUS) - (real len - 1) * BALL_RADIUS)
              + rnd (k + 1) * (1 / 10),
      vx = 0, vy = 0, active = True,
      type_b = (if i = 8 then EIGHT else if i > 8 then STRIPE else SOLID)\<rparr>
     # rackRow rnd (k + 2) colIndex len (rowIndex + 1) row"

fun rackRows :: "(nat \<Rightarrow> real) \<Rightarrow> nat \<Rightarrow> nat \<Rightarrow> int list list \<Rightarrow> Ball list" where
  "rackRows rnd k colIndex [] = []"
| "rackRows rnd k colIndex (row # rows) =
     rackRow rnd k colIndex (length row) 0 row
     @ rackRows rnd (k + 2 * length row) (colIndex + 1) rows"

definition ids9 :: "int list" where
  "ids9 = [1, 2, 3, 9, 5, 6, 7, 8, 4]"

definition pos9 :: "(real \<times> real) list" where
  "pos9 = [(0, 0), (1, - (5 / 10)), (1, 5 / 10), (2, 0), (2, - 1), (2, 1),
           (3, - (5 / 10)), (3, 5 / 10), (4, 0)]"

fun rackNine :: "(nat \<Rightarrow> real) \<Rightarrow> nat \<Rightarrow> (int \<times> real \<times> real) list \<Rightarrow> Ball list" where
  "rackNine rnd k [] = []"
| "rackNine rnd k ((i, c, r) # ps) =
     \<lparr>id_b = i,
      x_b = (startX + c * dist_rack) + rnd k * (1 / 10),
      y_b = (startY + r * 2 * BALL_RADIUS) + rnd (k + 1) * (1 / 10),
      vx = 0, vy = 0, active = True,
      type_b = (if i = 9 then NINE else SOLID)\<rparr>
     # rackNine rnd (k + 2) ps"

definition cueStart :: Ball where
  "cueStart = \<lparr>id_b = 0, x_b = 200, y_b = TABLE_HEIGHT / 2, vx = 0, vy = 0, active = True,
               type_b = CUE\<rparr>"

definition rack :: "(nat \<Rightarrow> real) \<Rightarrow> BilliardsMode \<Rightarrow> Ball list" where
  "rack rnd m =
     cueStart # (if m = Mode8BALL then rackRows rnd 0 0 pattern
                 else rackNine rnd 0 (zip ids9 pos9))"

definition initRound :: "(nat \<Rightarrow> real) \<Rightarrow> Game \<Rightarrow> Game" where
  "initRound rnd s =
     s\<lparr>balls := rack rnd (mode s), gameState := PLAYING, turn := 1, winner := None,
       placingBall := False, foulMessage := None,
       playerGroups := \<lparr>g1 = None, g2 = None\<rparr>, turnInfo := emptyTurnInfo\<rparr>"

section \<open>Example positions\<close>

definition ballAt :: "int \<Rightarrow> BallType \<Rightarrow> real \<Rightarrow> real \<Rightarrow> bool \<Rightarrow> Ball" where
  "ballAt i t px py a = \<lparr>id_b = i, x_b = px, y_b = py, vx = 0, vy = 0, active = a, type_b = t\<rparr>"

text \<open>A round in play with the given mode, balls and turn record: player 1 is at the
  table, the balls of the last frame moved, the refs agree with the state.\<close>

definition tableOf :: "BilliardsMode \<Rightarrow> Ball list \<Rightarrow> TurnInfo \<Rightarrow> Game" where
  "tableOf m bs ti =
     \<lparr>mode = m, gameState = PLAYING,
      matchConfig = \<lparr>totalFrames = 3, pointsPerMatch = 100\<rparr>,
      matchScore = \<lparr>p1 = 0, p2 = 0\<rparr>, turn = 1, winner = None, matchWinner = None,
      playerGroups = \<lparr>g1 = None, g2 = None\<rparr>, isMoving = True,
      dragStart = None, currentDrag = None, power = 0, placingBall = False,
      validPlacement = True, foulMessage = None, balls = bs, turnInfo = ti,
      modeRef = m, turnRef = 1, playerGroupsRef = \<lparr>g1 = None, g2 = None\<rparr>,
      placingBallRef = False, username = ''user'', player2 = None, played = [],
      gameEnds = []\<rparr>"

text \<open>Nine-ball tables: the cue ball and the nine object balls in rack order, the balls
  of \<open>actives\<close> on the table and the others pocketed.\<close>

definition nineBalls :: "bool \<Rightarrow> int list \<Rightarrow> Ball list" where
  "nineBalls cueActive actives =
     ballAt 0 CUE 200 200 cueActive
     # map (\<lambda>i. ballAt i (if i = 9 then NINE else SOLID) (300 + 40 * real_of_int i) 200
               (i \<in> set actives)) ids9"

text \<open>Eight-ball table: all solids and the 8 are pocketed, the seven stripes are on the
  table; player 1 plays the solids and has just pocketed the 8 after striking it first.\<close>

definition eightBalls :: "Ball list" where
  "eightBalls =
     ballAt 0 CUE 200 200 True
     # map (\<lambda>i. ballAt i SOLID 20 20 False) [1, 2, 3, 4, 5, 6, 7]
     @ [ballAt 8 EIGHT 780 20 False]
     @ map (\<lambda>i. ballAt i STRIPE (40 * real_of_int i) 100 True) [9, 10, 11, 12, 13, 14, 15]"

definition solidsForP1 :: PlayerGroups where
  "solidsForP1 = \<lparr>g1 = Some SOLIDS, g2 = Some STRIPES\<rparr>"

definition eightState :: Game where
  "eightState =
     (tableOf Mode8BALL eightBalls
        \<lparr>pottedThisTurn = True, firstHitId = Some 8, nineBallPotted = False\<rparr>)
       \<lparr>playerGroups := solidsForP1, playerGroupsRef := solidsForP1\<rparr>"

text \<open>Nine-ball, balls 1, 3 and 9 on the table at the shot. The cue ball strikes ball 3
  first, ball 3 sends ball 1 into a pocket: at rest balls 3 and 9 are left.\<close>

definition wrongOrderState :: Game where
  "wrongOrderState =
     tableOf Mode9BALL (nineBalls True [3, 9])
       \<lparr>pottedThisTurn = True, firstHitId = Some 3, nineBallPotted = False\<rparr>"

text \<open>The same table, but the cue ball strikes ball 1 first and pockets it.\<close>

definition legalPotState :: Game where
  "legalPotState =
     tableOf Mode9BALL (nineBalls True [3, 9])
       \<lparr>pottedThisTurn = True, firstHitId = Some 1, nineBallPotted = False\<rparr>"

text \<open>Nine-ball, only the 9 on the table at the shot; the cue ball strikes it and
  pockets it.\<close>

definition ninePottedState :: Game where
  "ninePottedState =
     tableOf Mode9BALL (nineBalls True [])
       \<lparr>pottedThisTurn = True, firstHitId = Some 9, nineBallPotted = True\<rparr>"

text \<open>Nine-ball, balls 1, 3 and 9 on the table at the shot; the cue ball strikes ball 1,
  which stays on the table and sends the 9 into a pocket.\<close>

definition comboState :: Game where
  "comboState =
     tableOf Mode9BALL (nineBalls True [1, 3])
       \<lparr>pottedThisTurn = True, firstHitId = Some 1, nineBallPotted = True\<rparr>"

text \<open>Nine-ball, the cue ball went into a pocket after striking ball 1.\<close>

definition scratchState :: Game where
  "scratchState =
     tableOf Mode9BALL (nineBalls False [1, 3, 9])
       \<lparr>pottedThisTurn = True, firstHitId = Some 1, nineBallPotted = False\<rparr>"

text \<open>The same scratch with player 2 at the table.\<close>

definition scratchStateP2 :: Game where
  "scratchStateP2 = scratchState\<lparr>turn := 2, turnRef := 2\<rparr>"

text \<open>Nine-ball, player 2 has the cue ball in hand after a foul of player 1.\<close>

definition placingState :: Game where
  "placingState =
     (tableOf Mode9BALL (nineBalls True [1, 3, 9]) emptyTurnInfo)
       \<lparr>isMoving := False, placingBall := True, placingBallRef := True, turn := 2, turnRef := 2\<rparr>"

text \<open>Nine-ball, the last frame of a turn. Balls 1 and 9 are on the table, ball 1 rests
  against the left cushion; the cue ball, which struck ball 3 first and pocketed it,
  rolls slowly towards ball 1 and is two radii away from it. \<open>restState\<close> is the table
  after the frame.\<close>

definition settleBalls :: "Ball list" where
  "settleBalls =
     (ballAt 0 CUE 36 200 True)\<lparr>vx := - (8 / 100)\<rparr>
     # ballAt 1 SOLID 12 200 True
     # map (\<lambda>i. ballAt i SOLID 20 20 False) [2, 3]
     @ ballAt 9 NINE 600 200 True
     # map (\<lambda>i. ballAt i SOLID 20 20 False) [5, 6, 7, 8, 4]"

definition settleState :: Game where
  "settleState =
     tableOf Mode9BALL settleBalls
       \<lparr>pottedThisTurn = True, firstHitId = Some 3, nineBallPotted = False\<rparr>"

definition restBalls :: "Ball list" where
  "restBalls =
     ballAt 0 CUE (921599 / 25600) 200 True
     # ballAt 1 SOLID (307199 / 25600) 200 True
     # map (\<lambda>i. ballAt i SOLID 20 20 False) [2, 3]
     @ ballAt 9 NINE 600 200 True
     # map (\<lambda>i. ballAt i SOLID 20 20 False) [5, 6, 7, 8, 4]"

definition restState :: Game where
  "restState =
     settleState\<lparr>balls := restBalls, isMoving := False, placingBall := True,
       foulMessage := Some LowestNotHit, played := [SndWrong], turn := 2,
       turnInfo := emptyTurnInfo\<rparr>"

text \<open>No two balls of the list are in contact: the pair loops change nothing.\<close>

fun noContacts :: "bool \<Rightarrow> Ball list \<Rightarrow> bool" where
  "noContacts placing [] = True"
| "noContacts placing (b1 # rest) =
     (list_all (\<lambda>b2. \<not> inContact placing b1 b2) rest \<and> noContacts placing rest)"

text \<open>Nine-ball, right after a shot: the cue ball leaves its place with speed 10, balls
  1, 3 and 9 are on the table. \<open>movedBalls\<close> are the balls one sub-step later.\<close>

definition shotState :: Game where
  "shotState =
     tableOf Mode9BALL
       ((ballAt 0 CUE 200 200 True)\<lparr>vx := 8, vy := 6\<rparr>
        # map (\<lambda>i. ballAt i (if i = 9 then NINE else SOLID) (300 + 40 * real_of_int i) 200
                  (i \<in> {1, 3, 9})) ids9)
       emptyTurnInfo"

definition movedBalls :: "Ball list" where
  "movedBalls =
     (ballAt 0 CUE 201 (20075 / 100) True)\<lparr>vx := 15991 / 2000, vy := 47973 / 8000\<rparr>
     # map (\<lambda>i. ballAt i (if i = 9 then NINE else SOLID) (300 + 40 * real_of_int i) 200
               (i \<in> {1, 3, 9})) ids9"

text \<open>Measures for the collision claims: the velocity of \<open>b2\<close> relative to \<open>b1\<close> along
  a normal \<open>n\<close>, and the kinetic energy of a ball of unit mass.\<close>

definition relNormalVelocity :: "Ball \<Rightarrow> Ball \<Rightarrow> real \<times> real \<Rightarrow> real" where
  "relNormalVelocity b1 b2 n = (vx b2 - vx b1) * fst n + (vy b2 - vy b1) * snd n"

definition kinetic :: "Ball \<Rightarrow> real" where
  "kinetic b = ((vx b)\<^sup>2 + (vy b)\<^sup>2) / 2"

text \<open>Balls 2 and 9 as the eight-ball rack can leave them: same column, at rest, the
  jitter has brought them to a distance of 23.91.\<close>

definition upperBall :: Ball where
  "upperBall = ballAt 2 SOLID 621 (18809 / 100) True"

definition lowerBall :: Ball where
  "lowerBall = ballAt 9 STRIPE 621 212 True"

text \<open>The cue ball rolls into ball 1, four units deep.\<close>

definition cueRolling :: Ball where
  "cueRolling = (ballAt 0 CUE 100 100 True)\<lparr>vx := 5\<rparr>"

definition target :: Ball where
  "target = ballAt 1 SOLID 120 100 True"

text \<open>The square of the distance of two centres.\<close>

definition centreGap2 :: "Ball \<Rightarrow> Ball \<Rightarrow> real" where
  "centreGap2 b1 b2 = (x_b b2 - x_b b1)\<^sup>2 + (y_b b2 - y_b b1)\<^sup>2"

text \<open>The rack as a grid: a slot \<open>(k, c, h)\<close> is the place in column \<open>c\<close>, \<open>h\<close> radii
  below the middle line, of the ball that draws its jitter from the calls \<open>k\<close> and
  \<open>k + 1\<close> of the random generator. \<open>grid8\<close> and \<open>grid9\<close> are the slots of the two racks in
  the order of the source; two slots are apart when they are two radii apart within a
  column, or differ in height across neighbouring columns.\<close>

definition slot :: "(nat \<Rightarrow> real) \<Rightarrow> nat \<times> int \<times> int \<Rightarrow> real \<times> real" where
  "slot rnd g =
     (case g of (k, c, h) \<Rightarrow>
        (startX + real_of_int c * dist_rack + rnd k * (1 / 10),
         startY + real_of_int h * BALL_RADIUS + rnd (k + 1) * (1 / 10)))"

definition grid8 :: "(nat \<times> int \<times> int) list" where
  "grid8 =
     [(0, 0, 0), (2, 1, - 1), (4, 1, 1), (6, 2, - 2), (8, 2, 0), (10, 2, 2),
      (12, 3, - 3), (14, 3, - 1), (16, 3, 1), (18, 3, 3),
      (20, 4, - 4), (22, 4, - 2), (24, 4, 0), (26, 4, 2), (28, 4, 4)]"

definition grid9 :: "(nat \<times> int \<times> int) list" where
  "grid9 =
     [(0, 0, 0), (2, 1, - 1), (4, 1, 1), (6, 2, 0), (8, 2, - 2), (10, 2, 2),
      (12, 3, - 1), (14, 3, 1), (16, 4, 0)]"

definition gridApart :: "nat \<times> int \<times> int \<Rightarrow> nat \<times> int \<times> int \<Rightarrow> bool" where
  "gridApart g g' =
     (case g of (k, c, h) \<Rightarrow> case g' of (k', c', h') \<Rightarrow>
        (if c = c' then 2 \<le> \<bar>h' - h\<bar> else if \<bar>c' - c\<bar> = 1 then h \<noteq> h' else True))"

definition gridInside :: "nat \<times> int \<times> int \<Rightarrow> bool" where
  "gridInside g = (case g of (k, c, h) \<Rightarrow> 0 \<le> c \<and> c \<le> 4 \<and> - 4 \<le> h \<and> h \<le> 4)"

definition apartPos :: "real \<times> real \<Rightarrow> real \<times> real \<Rightarrow> bool" where
  "apartPos p q =
     (let gap = (fst q - fst p)\<^sup>2 + (snd q - snd p)\<^sup>2
      in (2 * BALL_RADIUS)\<^sup>2 \<le> gap
         \<or> (\<bar>fst q - fst p\<bar> < 1 / 10 \<and> (2 * BALL_RADIUS - 1 / 10)\<^sup>2 < gap))"

definition insidePos :: "real \<times> real \<Rightarrow> bool" where
  "insidePos p =
     (BALL_RADIUS \<le> fst p \<and> fst p \<le> TABLE_WIDTH - BALL_RADIUS
      \<and> BALL_RADIUS \<le> snd p \<and> snd p \<le> TABLE_HEIGHT - BALL_RADIUS)"

definition position :: "Ball \<Rightarrow> real \<times> real" where
  "position b = (x_b b, y_b b)"

text \<open>A jitter that moves ball 2 by 0.09 towards ball 9 and leaves every other ball in
  its slot.\<close>

definition nearJitter :: "nat \<Rightarrow> real" where
  "nearJitter k = (if k = 3 then 9 / 10 else 0)"

text \<open>What the pair loops never change of a ball: its id and whether it is active.\<close>

definition tag :: "Ball \<Rightarrow> int \<times> bool" where
  "tag b = (id_b b, active b)"

text \<open>The layout of every rack: the cue ball is the first ball of the list and the only
  ball with id 0.\<close>

definition cueFirst :: "Ball list \<Rightarrow> bool" where
  "cueFirst bs = (case bs of [] \<Rightarrow> False | cue # rest \<Rightarrow> id_b cue = 0 \<and> list_all (\<lambda>b. id_b b \<noteq> 0) rest)"

text \<open>The first contact of the cue ball in a sub-step: after the balls' own updates, the
  first ball in list order that is in contact with the cue ball (the pair loop meets the
  cue ball's partners in this order), if there is one.\<close>

definition cueContact :: "bool \<Rightarrow> Ball list \<Rightarrow> int option" where
  "cueContact placing bs =
     (case fst (stepBalls placing bs) of
        [] \<Rightarrow> None
      | cue # rest \<Rightarrow> map_option id_b (find (inContact placing cue) rest))"

text \<open>Nine-ball, a frame in the middle of a shot: the cue ball rolls with speed 16 towards
  ball 1, one radius and one unit away; \<open>h0\<close> is the first contact recorded so far in the
  turn. \<open>brokenState\<close> is the table after the eight sub-steps of the frame.\<close>

definition breakBalls :: "Ball list" where
  "breakBalls =
     (ballAt 0 CUE 100 200 True)\<lparr>vx := 16\<rparr>
     # ballAt 1 SOLID 125 200 True
     # map (\<lambda>i. ballAt i SOLID 20 20 False) [2, 3]
     @ ballAt 9 NINE 600 200 True
     # map (\<lambda>i. ballAt i SOLID 20 20 False) [5, 6, 7, 8, 4]"

definition breakState :: "int option \<Rightarrow> Game" where
  "breakState h0 =
     tableOf Mode9BALL breakBalls
       \<lparr>pottedThisTurn = False, firstHitId = h0, nineBallPotted = False\<rparr>"

definition brokenBalls :: "Ball list" where
  "brokenBalls =
     (ballAt 0 CUE (8163603 / 80000) 200 True)\<lparr>vx := 1501 / 2500\<rparr>
     # (ballAt 1 SOLID (44454563 / 320000) 200 True)\<lparr>vx := 612609 / 40000\<rparr>
     # map (\<lambda>i. ballAt i SOLID 20 20 False) [2, 3]
     @ ballAt 9 NINE 600 200 True
     # map (\<lambda>i. ballAt i SOLID 20 20 False) [5, 6, 7, 8, 4]"

definition brokenState :: "int option \<Rightarrow> Game" where
  "brokenState h0 =
     (breakState h0)\<lparr>balls := brokenBalls,
       turnInfo := \<lparr>pottedThisTurn = False,
                    firstHitId = (case h0 of None \<Rightarrow> Some 1 | Some h \<Rightarrow> Some h),
                    nineBallPotted = False\<rparr>\<rparr>"

text \<open>The balls of \<open>settleState\<close> after its first sub-step.\<close>

definition nudgedBalls :: "Ball list" where
  "nudgedBalls =
     ballAt 0 CUE (7199 / 200) 200 True
     # ballAt 1 SOLID (2399 / 200) 200 True
     # map (\<lambda>i. ballAt i SOLID 20 20 False) [2, 3]
     @ ballAt 9 NINE 600 200 True
     # map (\<lambda>i. ballAt i SOLID 20 20 False) [5, 6, 7, 8, 4]"

section \<open>Properties\<close>

lemma find_mutateFirst:
  "find P bs = Some c \<Longrightarrow> P (f c) \<Longrightarrow> find P (mutateFirst P f bs) = Some (f c)"
  by (induction bs) (auto split: if_splits)

text \<open>
  Claim C4. When the cue ball is inactive (pocketed) at the evaluation of a settled turn,
  \<open>handleTurnEnd\<close> reports the foul "cue ball pocketed", makes the cue ball active again
  with zero velocity and its old position, sets the placement state and gives the turn to
  the opponent: to player 2 when player 1 shot, to player 1 when player 2 shot.
\<close>

theorem scratch_foul:
  assumes "find isCue (balls s) = Some c" and "\<not> active c"
  shows "foulMessage (handleTurnEnd s) = Some CueBallPocketed
       \<and> find isCue (balls (handleTurnEnd s)) = Some (c\<lparr>active := True, vx := 0, vy := 0\<rparr>)
       \<and> placingBall (handleTurnEnd s) = True
       \<and> (turnRef s = 1 \<longrightarrow> turn (handleTurnEnd s) = 2)
       \<and> (turnRef s = 2 \<longrightarrow> turn (handleTurnEnd s) = 1)"
proof -
  have c0: "isCue c"
    using assms(1) by (induction "balls s") (auto split: if_splits dest: find_Some_iff[THEN iffD1])
  have j: "judge s =
      (Some CueBallPocketed,
       s\<lparr>balls := mutateFirst isCue (\<lambda>c. c\<lparr>active := True, vx := 0, vy := 0\<rparr>) (balls s),
         placingBall := True\<rparr>)"
    using assms by (simp add: judge_def)
  have f: "find isCue (mutateFirst isCue (\<lambda>c. c\<lparr>active := True, vx := 0, vy := 0\<rparr>) (balls s))
      = Some (c\<lparr>active := True, vx := 0, vy := 0\<rparr>)"
    using assms(1) c0 by (intro find_mutateFirst) (simp_all add: isCue_def)
  show ?thesis
    using f by (simp add: handleTurnEnd_def j playSound_def opponentOf_def)
qed

theorem scratch_foul_witness:
  "foulMessage (handleTurnEnd scratchState) = Some CueBallPocketed
   \<and> find isCue (balls (handleTurnEnd scratchState)) = Some (ballAt 0 CUE 200 200 True)
   \<and> placingBall (handleTurnEnd scratchState) = True
   \<and> turnRef scratchState = 1
   \<and> turn (handleTurnEnd scratchState) = 2
   \<and> foulMessage (handleTurnEnd scratchStateP2) = Some CueBallPocketed
   \<and> find isCue (balls (handleTurnEnd scratchStateP2)) = Some (ballAt 0 CUE 200 200 True)
   \<and> placingBall (handleTurnEnd scratchStateP2) = True
   \<and> turnRef scratchStateP2 = 2
   \<and> turn (handleTurnEnd scratchStateP2) = 1"
proof -
  have c: "find isCue (balls scratchState) = Some (ballAt 0 CUE 200 200 False)"
    "find isCue (balls scratchStateP2) = Some (ballAt 0 CUE 200 200 False)"
    by (simp_all add: scratchStateP2_def scratchState_def tableOf_def nineBalls_def isCue_def
        ballAt_def)
  have a: "\<not> active (ballAt 0 CUE 200 200 False)"
    by (simp add: ballAt_def)
  have t: "turnRef scratchState = 1" "turnRef scratchStateP2 = 2"
    by (simp_all add: scratchStateP2_def scratchState_def tableOf_def)
  from scratch_foul [OF c(1) a] scratch_foul [OF c(2) a] t show ?thesis
    by (simp add: ballAt_def)
qed

lemmas rules_unfold =
  tableOf_def nineBalls_def ballAt_def ids9_def judge_def handleTurnEnd_def isCue_def
  lowestActive_def playSound_def opponentOf_def shooterName_def opponentName_def endRound_def
  groupOf_def onEight_def hitGroup_def emptyTurnInfo_def Let_def

text \<open>
  Claim C1 (the code departs from it). Player 1 plays the solids, all seven solids are
  pocketed, the cue ball struck the 8 first and pocketed it, and \<open>handleTurnEnd\<close> finds no
  foul in that turn. \<open>handlePotLogic\<close> gives the round to player 2, because stripes are
  still on the table: it counts every object ball, not the shooter's group.
\<close>

theorem eight_pot_group_cleared_loses:
  "onEight (balls eightState) (groupOf (playerGroupsRef eightState) (turnRef eightState))
   \<and> fst (judge eightState) = None
   \<and> winner (handlePotLogic [8] eightState) = Some ''P2''
   \<and> gameState (handlePotLogic [8] eightState) = ROUND_OVER"
  by (simp add: rules_unfold eightState_def eightBalls_def solidsForP1_def
      handlePotLogic_def assignGroups_def truthyId_def)

text \<open>
  Claim C2 (the code departs from it). \<open>handleTurnEnd\<close> takes the lowest ball of the table
  at rest, after the pots of the turn. With balls 1, 3 and 9 on the table at the shot, a
  first contact with ball 3 is no foul when ball 1 fell during the shot, and the shooter
  stays at the table; a first contact with ball 1 that pockets ball 1 is a foul.
\<close>

theorem nine_order_judged_at_rest:
  "lowestActive (nineBalls True [1, 3, 9]) = 1
   \<and> firstHitId (turnInfo wrongOrderState) = Some 3
   \<and> fst (judge wrongOrderState) = None
   \<and> foulMessage (handleTurnEnd wrongOrderState) = None
   \<and> placingBall (handleTurnEnd wrongOrderState) = False
   \<and> turn (handleTurnEnd wrongOrderState) = turnRef wrongOrderState
   \<and> firstHitId (turnInfo legalPotState) = Some 1
   \<and> fst (judge legalPotState) = Some LowestNotHit"
  by (simp add: rules_unfold wrongOrderState_def legalPotState_def)

text \<open>
  Claim C3 (the code departs from it). Only the 9 is on the table, the cue ball strikes it
  and pockets it. At rest no object ball is active, the lowest number is the start value
  999, and \<open>handleTurnEnd\<close> reports the foul "lowest-numbered ball not hit": no round
  winner, the round goes on and the turn passes to player 2.
\<close>

theorem nine_potted_last_is_foul:
  "lowestActive (nineBalls True [9]) = 9
   \<and> lowestActive (balls ninePottedState) = 999
   \<and> fst (judge ninePottedState) = Some LowestNotHit
   \<and> winner (handleTurnEnd ninePottedState) = None
   \<and> gameState (handleTurnEnd ninePottedState) = PLAYING
   \<and> turn (handleTurnEnd ninePottedState) = 2"
  by (simp add: rules_unfold ninePottedState_def)

lemma judge_turnInfo: "turnInfo (snd (judge s)) = turnInfo s"
  by (simp add: judge_def Let_def split: option.splits)

lemma endRound_turnInfo: "turnInfo (endRound n s) = turnInfo s"
  by (simp add: endRound_def Let_def playSound_def)

text \<open>
  Claim C10, amended. \<open>handleTurnEnd\<close> resets the turn record in every outcome but one:
  when it ends the round by a pocketed 9 (nine-ball, no foul) it returns before the reset
  and leaves the record as it was. The start of the next round resets it.
\<close>

theorem turn_record_reset:
  "turnInfo (handleTurnEnd s) =
     (if fst (judge s) = None \<and> pottedThisTurn (turnInfo s) \<and> modeRef s = Mode9BALL
         \<and> nineBallPotted (turnInfo s)
      then turnInfo s else emptyTurnInfo)
   \<and> turnInfo (initRound rnd (handleTurnEnd s)) = emptyTurnInfo"
proof -
  obtain f s1 where j: "judge s = (f, s1)"
    by (cases "judge s")
  have t: "turnInfo s1 = turnInfo s"
    using judge_turnInfo [of s] j by simp
  show ?thesis
    by (cases f) (simp_all add: handleTurnEnd_def j t endRound_turnInfo playSound_def
        initRound_def)
qed

theorem turn_record_reset_witness:
  "turnInfo (handleTurnEnd scratchState) = emptyTurnInfo
   \<and> turnInfo (handleTurnEnd comboState) = turnInfo comboState
   \<and> turnInfo (initRound (\<lambda>k. 0) (handleTurnEnd comboState)) = emptyTurnInfo"
  using turn_record_reset [of scratchState "\<lambda>k. 0"] turn_record_reset [of comboState "\<lambda>k. 0"]
  by (simp add: rules_unfold scratchState_def comboState_def)

theorem turn_record_kept_on_nine_win:
  "winner (handleTurnEnd comboState) = Some ''P1''
   \<and> turnInfo (handleTurnEnd comboState)
       = \<lparr>pottedThisTurn = True, firstHitId = Some 1, nineBallPotted = True\<rparr>
   \<and> turnInfo (handleTurnEnd comboState) \<noteq> emptyTurnInfo"
  by (simp add: rules_unfold comboState_def)

lemma sqrt_less_two_radii: "(sqrt z < 2 * BALL_RADIUS) = (z < (BALL_RADIUS * 2)\<^sup>2)"
proof -
  have "sqrt 576 = 24"
    by (rule real_sqrt_unique) simp_all
  then have "(sqrt z < 24) = (sqrt z < sqrt 576)"
    by simp
  also have "\<dots> = (z < 576)"
    by (rule real_sqrt_less_iff)
  finally show ?thesis
    by (simp add: BALL_RADIUS_def)
qed

lemma overlapsObject_iff:
  "overlapsObject pos bs =
     (\<not> (\<forall>b\<in>set bs. id_b b \<noteq> 0 \<and> active b \<longrightarrow>
            2 * BALL_RADIUS \<le> sqrt ((x_b b - fst pos)\<^sup>2 + (y_b b - snd pos)\<^sup>2)))"
  by (auto simp: overlapsObject_def list_ex_iff not_le sqrt_less_two_radii)

text \<open>
  Claim C8. While the cue ball is being placed, a press at \<open>pos\<close> is accepted exactly
  when \<open>pos\<close> lies in the table inset by one radius and every active object ball has
  its centre at least two radii away: the cue ball then gets the position and the
  placement ends. Otherwise the press only plays the "wrong" sound: no ball moves and the
  placement state stays.
\<close>

theorem placeCueBall:
  assumes "\<not> isMoving s" and "gameState s = PLAYING" and "placingBall s"
    and "find isCue (balls s) = Some c"
  shows "let ok = (BALL_RADIUS \<le> fst pos \<and> fst pos \<le> TABLE_WIDTH - BALL_RADIUS
                 \<and> BALL_RADIUS \<le> snd pos \<and> snd pos \<le> TABLE_HEIGHT - BALL_RADIUS
                 \<and> (\<forall>b\<in>set (balls s). id_b b \<noteq> 0 \<and> active b \<longrightarrow>
                       2 * BALL_RADIUS \<le> sqrt ((x_b b - fst pos)\<^sup>2 + (y_b b - snd pos)\<^sup>2)));
             s' = handleMouseDown pos s
         in (placingBall s' = False) = ok
          \<and> (ok \<longrightarrow> find isCue (balls s') = Some (c\<lparr>x_b := fst pos, y_b := snd pos\<rparr>)
                   \<and> played s' = played s @ [SndClick])
          \<and> (\<not> ok \<longrightarrow> s' = s\<lparr>played := played s @ [SndWrong]\<rparr>)"
proof -
  have c0: "isCue c"
    using assms(4) by (auto simp: find_Some_iff)
  have f: "find isCue (mutateFirst isCue (\<lambda>c. c\<lparr>x_b := fst pos, y_b := snd pos\<rparr>) (balls s))
      = Some (c\<lparr>x_b := fst pos, y_b := snd pos\<rparr>)"
    using assms(4) c0 by (intro find_mutateFirst) (simp_all add: isCue_def)
  have v: "placementValid pos (balls s) =
     (BALL_RADIUS \<le> fst pos \<and> fst pos \<le> TABLE_WIDTH - BALL_RADIUS
      \<and> BALL_RADIUS \<le> snd pos \<and> snd pos \<le> TABLE_HEIGHT - BALL_RADIUS
      \<and> (\<forall>b\<in>set (balls s). id_b b \<noteq> 0 \<and> active b \<longrightarrow>
            2 * BALL_RADIUS \<le> sqrt ((x_b b - fst pos)\<^sup>2 + (y_b b - snd pos)\<^sup>2)))"
    by (auto simp: placementValid_def inBounds_def overlapsObject_iff Let_def)
  show ?thesis
    unfolding Let_def v [symmetric]
    using assms f by (simp add: handleMouseDown_def playSound_def)
qed

theorem placeCueBall_witness:
  "placingBall (handleMouseDown (100, 100) placingState) = False
   \<and> find isCue (balls (handleMouseDown (100, 100) placingState)) = Some (ballAt 0 CUE 100 100 True)
   \<and> handleMouseDown (350, 200) placingState = placingState\<lparr>played := [SndWrong]\<rparr>"
proof -
  have a: "\<not> isMoving placingState" "gameState placingState = PLAYING" "placingBall placingState"
    by (simp_all add: placingState_def tableOf_def)
  have c: "find isCue (balls placingState) = Some (ballAt 0 CUE 200 200 True)"
    by (simp add: placingState_def tableOf_def nineBalls_def isCue_def ballAt_def)
  have s: "sqrt 100 = 10"
    by (rule real_sqrt_unique) simp_all
  have far: "\<forall>b\<in>set (balls placingState). id_b b \<noteq> 0 \<and> active b \<longrightarrow>
     2 * BALL_RADIUS \<le> sqrt ((x_b b - fst (100::real, 100::real))\<^sup>2 + (y_b b - snd (100::real, 100::real))\<^sup>2)"
    by (simp add: placingState_def tableOf_def nineBalls_def ballAt_def ids9_def BALL_RADIUS_def
        real_le_rsqrt)
  have near: "\<not> (\<forall>b\<in>set (balls placingState). id_b b \<noteq> 0 \<and> active b \<longrightarrow>
     2 * BALL_RADIUS \<le> sqrt ((x_b b - fst (350::real, 200::real))\<^sup>2 + (y_b b - snd (350::real, 200::real))\<^sup>2))"
    by (simp add: placingState_def tableOf_def nineBalls_def ballAt_def ids9_def BALL_RADIUS_def s)
  from placeCueBall [OF a c, of "(100, 100)"] placeCueBall [OF a c, of "(350, 200)"] far near
  show ?thesis
    by (simp add: Let_def BALL_RADIUS_def TABLE_WIDTH_def TABLE_HEIGHT_def ballAt_def
        placingState_def tableOf_def)
qed

lemma sqrt_facts:
  "sqrt (4 / 625) = 2 / 25"
  "sqrt (5755201 / 10000) = 2399 / 100"
  "sqrt (23030401 / 40000) = 4799 / 200"
  "sqrt (92140801 / 160000) = 9599 / 400"
  "sqrt (368601601 / 640000) = 19199 / 800"
  "sqrt (1474483201 / 2560000) = 38399 / 1600"
  "sqrt (5898086401 / 10240000) = 76799 / 3200"
  "sqrt (23592652801 / 40960000) = 153599 / 6400"
  "sqrt (94371225601 / 163840000) = 307199 / 12800"
  by (rule real_sqrt_unique; simp add: power2_eq_square)+

lemmas phys_unfold = tableOf_def ballAt_def emptyTurnInfo_def
  SUB_STEPS_def subStep_def stepBall_def skipped_def moveBall_def integrate_def walls_def wallLeft_def wallRight_def
  wallTop_def wallBottom_def pocketed_def
  POCKETS_def POCKET_RADIUS_def TABLE_WIDTH_def TABLE_HEIGHT_def BALL_RADIUS_def DECELERATION_def
  STOP_THRESHOLD_def WALL_BOUNCE_def BALL_RESTITUTION_def
  outerLoop_def pairStep_def inContact_def touching_def collide_def normal_def recordHit_def
  Let_def power2_eq_square

lemma subSteps_numeral:
  "subSteps (numeral k) st =
     (case subStep st of None \<Rightarrow> None | Some st' \<Rightarrow> subSteps (pred_numeral k) st')"
  by (simp add: numeral_eq_Suc)

lemma settle_frame:
  "subSteps SUB_STEPS (settleState, False, []) = Some (settleState\<lparr>balls := restBalls\<rparr>, False, [])"
  by (simp add: settleState_def settleBalls_def restBalls_def phys_unfold sqrt_facts
      subSteps_numeral)

text \<open>
  Claim C5, counterexample. In the frame in which the balls of \<open>settleState\<close> come to
  rest the cue ball stops one hundredth of a unit inside ball 1. Every sub-step clamps
  ball 1 to the cushion and then pushes the two balls apart by half their overlap, with no
  clamp after it: when the turn is evaluated ball 1 is active and its centre is left of
  \<open>BALL_RADIUS\<close>.
\<close>

theorem rests_outside_bounds:
  "updatePhysics settleState = Some restState
   \<and> isMoving settleState \<and> \<not> isMoving restState
   \<and> active (balls restState ! 1)
   \<and> x_b (balls restState ! 1) < BALL_RADIUS"
proof -
  have u: "updatePhysics settleState
      = Some (endFrame settleState (settleState\<lparr>balls := restBalls\<rparr>, False, []))"
    by (simp add: updatePhysics_def settle_frame)
  have e: "endFrame settleState (settleState\<lparr>balls := restBalls\<rparr>, False, []) = restState"
    by (simp add: endFrame_def rules_unfold restState_def settleState_def restBalls_def)
  show ?thesis
    unfolding u e
    by (simp add: restState_def settleState_def restBalls_def tableOf_def ballAt_def
        BALL_RADIUS_def)
qed

lemma collide_id: "collide b1 b2 = Some (c1, c2) \<Longrightarrow> id_b c1 = id_b b1 \<and> id_b c2 = id_b b2"
  by (auto simp: collide_def Let_def split: option.splits)

lemma pairStep_firstHit:
  assumes "pairStep placing b1 b2 g = Some (c1, c2, g')"
  shows "g' = (if g = None \<and> inContact placing b1 b2 \<and> id_b b1 = 0 then Some (id_b b2)
               else if g = None \<and> inContact placing b1 b2 \<and> id_b b2 = 0 then Some (id_b b1)
               else g)"
  using assms
  by (auto simp: pairStep_def recordHit_def Let_def split: if_splits option.splits
      dest: collide_id)

lemma pairStep_keeps: "pairStep placing b1 b2 (Some h) = Some (c1, c2, g) \<Longrightarrow> g = Some h"
  by (drule pairStep_firstHit) simp

lemma innerLoop_keeps:
  "innerLoop placing b1 rest (Some h) = Some (c1, rest', g) \<Longrightarrow> g = Some h"
proof (induction rest arbitrary: b1 c1 rest')
  case Nil
  then show ?case by simp
next
  case (Cons b2 rest)
  then show ?case
    by (auto split: option.splits dest!: pairStep_keeps)
qed

lemma outerFrom_keeps:
  "outerFrom placing n bs (Some h) = Some (bs', g) \<Longrightarrow> g = Some h"
proof (induction placing n bs "Some h" arbitrary: bs' rule: outerFrom.induct)
  case (3 placing n b1 rest)
  then show ?case
    by (auto split: option.splits dest!: innerLoop_keeps)
qed simp_all

lemma subStep_keeps:
  assumes "subStep (s, mv, ps) = Some (s', mv', ps')" and "firstHitId (turnInfo s) = Some h"
  shows "firstHitId (turnInfo s') = Some h"
  using assms
  by (auto simp: subStep_def outerLoop_def Let_def split: prod.splits option.splits if_splits
      dest!: outerFrom_keeps)

lemma subSteps_keeps:
  "subSteps n (s, mv, ps) = Some (s', mv', ps') \<Longrightarrow> firstHitId (turnInfo s) = Some h
   \<Longrightarrow> firstHitId (turnInfo s') = Some h"
proof (induction n arbitrary: s mv ps)
  case 0
  then show ?case by simp
next
  case (Suc n)
  then obtain s1 mv1 ps1 where 1: "subStep (s, mv, ps) = Some (s1, mv1, ps1)"
    and 2: "subSteps n (s1, mv1, ps1) = Some (s', mv', ps')"
    by (auto split: option.splits)
  from subStep_keeps [OF 1 Suc.prems(2)] Suc.IH [OF 2] show ?case by simp
qed

lemma handlePotLogic_turnInfo: "turnInfo (handlePotLogic ids s) = turnInfo s"
  by (simp add: handlePotLogic_def assignGroups_def endRound_turnInfo Let_def split: option.splits)

lemma endRound_isMoving: "isMoving (endRound n s) = isMoving s"
  by (simp add: endRound_def Let_def playSound_def)

lemma handleTurnEnd_isMoving: "isMoving (handleTurnEnd s) = isMoving s"
proof -
  have "isMoving (snd (judge s)) = isMoving s"
    by (simp add: judge_def Let_def split: option.splits)
  then show ?thesis
    by (cases "judge s") (auto simp: handleTurnEnd_def endRound_isMoving playSound_def
        split: option.splits)
qed

lemma walls_x: "x_b (wallBottom (wallTop c)) = x_b c"
  by (simp add: wallBottom_def wallTop_def)

lemma wallRight_x:
  "BALL_RADIUS \<le> x_b (wallRight (wallLeft b)) \<and> x_b (wallRight (wallLeft b)) \<le> TABLE_WIDTH - BALL_RADIUS"
  by (simp add: wallRight_def wallLeft_def BALL_RADIUS_def TABLE_WIDTH_def)

lemma wallBottom_y:
  "BALL_RADIUS \<le> y_b (wallBottom (wallTop c)) \<and> y_b (wallBottom (wallTop c)) \<le> TABLE_HEIGHT - BALL_RADIUS"
  by (simp add: wallBottom_def wallTop_def BALL_RADIUS_def TABLE_HEIGHT_def)

lemma walls_bounds:
  "BALL_RADIUS \<le> x_b (walls b) \<and> x_b (walls b) \<le> TABLE_WIDTH - BALL_RADIUS
   \<and> BALL_RADIUS \<le> y_b (walls b) \<and> y_b (walls b) \<le> TABLE_HEIGHT - BALL_RADIUS"
  using wallRight_x [of b] wallBottom_y [of "wallRight (wallLeft b)"]
  by (simp add: walls_def walls_x)

lemma moveBall_bounds:
  "BALL_RADIUS \<le> x_b (fst (moveBall b)) \<and> x_b (fst (moveBall b)) \<le> TABLE_WIDTH - BALL_RADIUS
   \<and> BALL_RADIUS \<le> y_b (fst (moveBall b)) \<and> y_b (fst (moveBall b)) \<le> TABLE_HEIGHT - BALL_RADIUS"
proof -
  obtain b1 mv where i: "integrate b = (b1, mv)"
    by (cases "integrate b")
  show ?thesis
    using walls_bounds [of b1] by (simp add: moveBall_def i Let_def)
qed

lemma stepBalls_bounds:
  "b \<in> set (fst (stepBalls placing bs)) \<Longrightarrow> active b \<Longrightarrow> \<not> (placing \<and> id_b b = 0)
   \<Longrightarrow> BALL_RADIUS \<le> x_b b \<and> x_b b \<le> TABLE_WIDTH - BALL_RADIUS
     \<and> BALL_RADIUS \<le> y_b b \<and> y_b b \<le> TABLE_HEIGHT - BALL_RADIUS"
proof (induction bs)
  case Nil
  then show ?case by simp
next
  case (Cons a bs)
  show ?case
  proof (cases "b = fst (stepBall placing a)")
    case True
    show ?thesis
    proof (cases "skipped placing a")
      case True
      with \<open>b = fst (stepBall placing a)\<close> have "b = a"
        by (simp add: stepBall_def)
      with True Cons.prems show ?thesis
        by (auto simp: skipped_def split: if_splits)
    next
      case False
      with \<open>b = fst (stepBall placing a)\<close> have "b = fst (moveBall a)"
        by (simp add: stepBall_def)
      then show ?thesis
        using moveBall_bounds [of a] by simp
    qed
  next
    case False
    with Cons.prems(1) have "b \<in> set (fst (stepBalls placing bs))"
      by (auto simp: Let_def split: prod.splits)
    with Cons.IH Cons.prems show ?thesis by blast
  qed
qed

lemma innerLoop_noContact:
  "list_all (\<lambda>b2. \<not> inContact placing b1 b2) rest \<Longrightarrow> innerLoop placing b1 rest h = Some (b1, rest, h)"
  by (induction rest) (simp_all add: pairStep_def)

lemma outerFrom_noContact:
  "noContacts placing bs \<Longrightarrow> outerFrom placing n bs h = Some (bs, h)"
proof (induction n arbitrary: bs)
  case 0
  then show ?case by simp
next
  case (Suc n)
  then show ?case
    by (cases bs) (simp_all add: innerLoop_noContact)
qed

lemma sqrt_100: "sqrt 100 = 10"
  by (rule real_sqrt_unique) simp_all

lemma shot_stepBalls: "stepBalls False (balls shotState) = (movedBalls, True, [])"
  by (simp add: shotState_def movedBalls_def ids9_def phys_unfold sqrt_100)

lemma shot_noContacts: "noContacts False movedBalls"
  by (simp add: movedBalls_def ids9_def ballAt_def inContact_def touching_def BALL_RADIUS_def Let_def)

lemma shot_subStep:
  "subStep (shotState, False, []) = Some (shotState\<lparr>balls := movedBalls\<rparr>, True, [])"
proof -
  have p: "placingBallRef shotState = False"
    by (simp add: shotState_def tableOf_def)
  have o: "outerLoop False movedBalls h = Some (movedBalls, h)" for h
    using shot_noContacts by (simp add: outerLoop_def outerFrom_noContact)
  have t: "(turnInfo shotState)\<lparr>firstHitId := firstHitId (turnInfo shotState)\<rparr> = turnInfo shotState"
    by simp
  show ?thesis
    by (simp add: subStep_def p shot_stepBalls o)
qed

lemma unit_normal:
  assumes "normal b1 b2 = Some (nx, ny)"
  shows "nx * nx + ny * ny = 1"
proof -
  define dx where "dx = x_b b2 - x_b b1"
  define dy where "dy = y_b b2 - y_b b1"
  define d where "d = sqrt (dx * dx + dy * dy)"
  from assms have d0: "d \<noteq> 0" and nx: "nx = dx / d" and ny: "ny = dy / d"
    by (auto simp: normal_def Let_def dx_def dy_def d_def split: if_splits)
  have "0 \<le> dx * dx + dy * dy"
    by simp
  then have e: "dx * dx + dy * dy = d * d"
    unfolding d_def by simp
  have "nx * nx + ny * ny = (dx * dx + dy * dy) / (d * d)"
    by (simp add: nx ny add_divide_distrib)
  also have "\<dots> = 1"
    unfolding e using d0 by simp
  finally show ?thesis .
qed

lemma collide_velocities:
  assumes "collide b1 b2 = Some (c1, c2)" and "normal b1 b2 = Some (nx, ny)"
  shows "vx c1 = ((vx b1 * nx + vy b1 * ny) * (1 - BALL_RESTITUTION)
                  + (vx b2 * nx + vy b2 * ny) * (1 + BALL_RESTITUTION)) / 2 * nx
               + (vx b1 * (- ny) + vy b1 * nx) * (- ny)"
    and "vy c1 = ((vx b1 * nx + vy b1 * ny) * (1 - BALL_RESTITUTION)
                  + (vx b2 * nx + vy b2 * ny) * (1 + BALL_RESTITUTION)) / 2 * ny
               + (vx b1 * (- ny) + vy b1 * nx) * nx"
    and "vx c2 = ((vx b1 * nx + vy b1 * ny) * (1 + BALL_RESTITUTION)
                  + (vx b2 * nx + vy b2 * ny) * (1 - BALL_RESTITUTION)) / 2 * nx
               + (vx b2 * (- ny) + vy b2 * nx) * (- ny)"
    and "vy c2 = ((vx b1 * nx + vy b1 * ny) * (1 + BALL_RESTITUTION)
                  + (vx b2 * nx + vy b2 * ny) * (1 - BALL_RESTITUTION)) / 2 * ny
               + (vx b2 * (- ny) + vy b2 * nx) * nx"
  using assms by (auto simp: collide_def Let_def)


lemma restitution_algebra:
  fixes a b e :: real
  shows "(a * (1 + e) + b * (1 - e)) / 2 - (a * (1 - e) + b * (1 + e)) / 2 = - e * (b - a)"
  by (simp add: field_simps)

lemma collide_relNormal:
  assumes "collide b1 b2 = Some (c1, c2)" and "normal b1 b2 = Some (nx, ny)"
  shows "relNormalVelocity c1 c2 (nx, ny) = - BALL_RESTITUTION * relNormalVelocity b1 b2 (nx, ny)"
proof -
  define a where "a = vx b1 * nx + vy b1 * ny"
  define b where "b = vx b2 * nx + vy b2 * ny"
  define s where "s = vx b1 * (- ny) + vy b1 * nx"
  define t where "t = vx b2 * (- ny) + vy b2 * nx"
  define e where "e = BALL_RESTITUTION"
  define p where "p = (a * (1 - e) + b * (1 + e)) / 2"
  define q where "q = (a * (1 + e) + b * (1 - e)) / 2"
  note v = collide_velocities [OF assms, folded a_def b_def s_def t_def e_def, folded p_def q_def]
  have u: "nx * nx + ny * ny = 1"
    by (rule unit_normal [OF assms(2)])
  have "relNormalVelocity c1 c2 (nx, ny) = (q - p) * (nx * nx + ny * ny)"
    by (simp add: relNormalVelocity_def v algebra_simps)
  also have "\<dots> = q - p"
    by (simp add: u)
  also have "\<dots> = - e * (b - a)"
    unfolding p_def q_def by (rule restitution_algebra)
  also have "b - a = relNormalVelocity b1 b2 (nx, ny)"
    by (simp add: relNormalVelocity_def a_def b_def algebra_simps)
  finally show ?thesis
    by (simp add: e_def)
qed

lemma speed_decomposition:
  fixes p q nx ny :: real
  assumes "nx * nx + ny * ny = 1"
  shows "(p * nx + q * (- ny))\<^sup>2 + (p * ny + q * nx)\<^sup>2 = p\<^sup>2 + q\<^sup>2"
proof -
  have "(p * nx + q * (- ny))\<^sup>2 + (p * ny + q * nx)\<^sup>2 = (p\<^sup>2 + q\<^sup>2) * (nx * nx + ny * ny)"
    by (simp add: power2_eq_square algebra_simps)
  then show ?thesis
    by (simp add: assms)
qed

lemma velocity_decomposition:
  fixes v w nx ny :: real
  assumes "nx * nx + ny * ny = 1"
  shows "(v * nx + w * ny)\<^sup>2 + (v * (- ny) + w * nx)\<^sup>2 = v\<^sup>2 + w\<^sup>2"
proof -
  have "(v * nx + w * ny)\<^sup>2 + (v * (- ny) + w * nx)\<^sup>2 = (v\<^sup>2 + w\<^sup>2) * (nx * nx + ny * ny)"
    by (simp add: power2_eq_square algebra_simps)
  then show ?thesis
    by (simp add: assms)
qed

lemma normal_energy:
  fixes a b e :: real
  assumes "0 \<le> e" and "e \<le> 1"
  shows "((a * (1 - e) + b * (1 + e)) / 2)\<^sup>2 + ((a * (1 + e) + b * (1 - e)) / 2)\<^sup>2 \<le> a\<^sup>2 + b\<^sup>2"
proof -
  have "(a * (1 - e) + b * (1 + e))\<^sup>2 + (a * (1 + e) + b * (1 - e))\<^sup>2
      = 4 * (a\<^sup>2 + b\<^sup>2) - 2 * ((1 - e * e) * (a - b)\<^sup>2)"
    by (simp add: power2_eq_square algebra_simps)
  moreover have "0 \<le> 1 - e * e"
    using assms by (simp add: mult_le_one)
  then have "0 \<le> (1 - e * e) * (a - b)\<^sup>2"
    by simp
  ultimately have "(a * (1 - e) + b * (1 + e))\<^sup>2 + (a * (1 + e) + b * (1 - e))\<^sup>2
      \<le> 4 * (a\<^sup>2 + b\<^sup>2)"
    by linarith
  then show ?thesis
    by (simp add: power_divide)
qed

lemma half_sums:
  fixes P Q A B s t :: real
  shows "P + Q \<le> A + B \<Longrightarrow> (P + s) / 2 + (Q + t) / 2 \<le> (A + s) / 2 + (B + t) / 2"
  by (simp add: add_divide_distrib [symmetric])

lemma collide_kinetic:
  assumes "collide b1 b2 = Some (c1, c2)" and "normal b1 b2 = Some (nx, ny)"
  shows "kinetic c1 + kinetic c2 \<le> kinetic b1 + kinetic b2"
proof -
  define a where "a = vx b1 * nx + vy b1 * ny"
  define b where "b = vx b2 * nx + vy b2 * ny"
  define s where "s = vx b1 * (- ny) + vy b1 * nx"
  define t where "t = vx b2 * (- ny) + vy b2 * nx"
  define e where "e = BALL_RESTITUTION"
  note v = collide_velocities [OF assms, folded a_def b_def s_def t_def e_def]
  have u: "nx * nx + ny * ny = 1"
    by (rule unit_normal [OF assms(2)])
  have k1: "(vx c1)\<^sup>2 + (vy c1)\<^sup>2 = ((a * (1 - e) + b * (1 + e)) / 2)\<^sup>2 + s\<^sup>2"
    unfolding v by (rule speed_decomposition [OF u])
  have k2: "(vx c2)\<^sup>2 + (vy c2)\<^sup>2 = ((a * (1 + e) + b * (1 - e)) / 2)\<^sup>2 + t\<^sup>2"
    unfolding v by (rule speed_decomposition [OF u])
  have o1: "(vx b1)\<^sup>2 + (vy b1)\<^sup>2 = a\<^sup>2 + s\<^sup>2"
    unfolding a_def s_def by (rule velocity_decomposition [OF u, symmetric])
  have o2: "(vx b2)\<^sup>2 + (vy b2)\<^sup>2 = b\<^sup>2 + t\<^sup>2"
    unfolding b_def t_def by (rule velocity_decomposition [OF u, symmetric])
  have "0 \<le> e" "e \<le> 1"
    by (simp_all add: e_def BALL_RESTITUTION_def)
  from normal_energy [OF this, of a b] show ?thesis
    unfolding kinetic_def k1 k2 o1 o2 by (rule half_sums)
qed

text \<open>
  Claim C6, amended. A resolved collision turns the relative velocity along the contact
  normal into \<open>- BALL_RESTITUTION\<close> times itself: its magnitude never grows, it shrinks
  strictly whenever it was not zero, and the kinetic energy of the pair does not grow.
\<close>

theorem collision_loses_normal_speed:
  assumes "collide b1 b2 = Some (c1, c2)" and "normal b1 b2 = Some n"
  shows "\<bar>relNormalVelocity c1 c2 n\<bar> = BALL_RESTITUTION * \<bar>relNormalVelocity b1 b2 n\<bar>
       \<and> \<bar>relNormalVelocity c1 c2 n\<bar> \<le> \<bar>relNormalVelocity b1 b2 n\<bar>
       \<and> (relNormalVelocity b1 b2 n \<noteq> 0 \<longrightarrow>
            \<bar>relNormalVelocity c1 c2 n\<bar> < \<bar>relNormalVelocity b1 b2 n\<bar>)
       \<and> kinetic c1 + kinetic c2 \<le> kinetic b1 + kinetic b2"
proof -
  obtain nx ny where n: "n = (nx, ny)"
    by (cases n)
  have r: "relNormalVelocity c1 c2 n = - BALL_RESTITUTION * relNormalVelocity b1 b2 n"
    using collide_relNormal [of b1 b2 c1 c2 nx ny] assms by (simp add: n)
  have a: "\<bar>relNormalVelocity c1 c2 n\<bar> = BALL_RESTITUTION * \<bar>relNormalVelocity b1 b2 n\<bar>"
    by (simp add: r abs_mult BALL_RESTITUTION_def)
  have k: "kinetic c1 + kinetic c2 \<le> kinetic b1 + kinetic b2"
    using collide_kinetic [of b1 b2 c1 c2 nx ny] assms by (simp add: n)
  show ?thesis
    using k by (simp add: a BALL_RESTITUTION_def)
qed

lemma sqrt_overlap: "sqrt (5716881 / 10000) = 2391 / 100"
  by (rule real_sqrt_unique) (simp_all add: power2_eq_square)

lemma overlap_normal: "normal upperBall lowerBall = Some (0, 1)"
  by (simp add: normal_def upperBall_def lowerBall_def ballAt_def Let_def sqrt_overlap)

lemma overlap_collide:
  "collide upperBall lowerBall =
     Some (ballAt 2 SOLID 621 (188045 / 1000) True, ballAt 9 STRIPE 621 (212045 / 1000) True)"
  by (simp add: collide_def normal_def upperBall_def lowerBall_def ballAt_def Let_def sqrt_overlap
      BALL_RADIUS_def BALL_RESTITUTION_def)

text \<open>
  Claim C6, counterexample. Two overlapping balls at rest are a collision the engine
  resolves (they are pushed apart); the relative normal velocity is zero before and after,
  so its magnitude is not strictly smaller.
\<close>

theorem resting_overlap_keeps_normal_speed:
  "inContact False upperBall lowerBall
   \<and> normal upperBall lowerBall = Some (0, 1)
   \<and> collide upperBall lowerBall =
       Some (ballAt 2 SOLID 621 (188045 / 1000) True, ballAt 9 STRIPE 621 (212045 / 1000) True)
   \<and> relNormalVelocity upperBall lowerBall (0, 1) = 0
   \<and> relNormalVelocity (ballAt 2 SOLID 621 (188045 / 1000) True)
        (ballAt 9 STRIPE 621 (212045 / 1000) True) (0, 1) = 0
   \<and> \<not> \<bar>relNormalVelocity (ballAt 2 SOLID 621 (188045 / 1000) True)
          (ballAt 9 STRIPE 621 (212045 / 1000) True) (0, 1)\<bar>
        < \<bar>relNormalVelocity upperBall lowerBall (0, 1)\<bar>"
  by (simp add: overlap_normal overlap_collide)
    (simp add: inContact_def touching_def relNormalVelocity_def upperBall_def lowerBall_def
      ballAt_def BALL_RADIUS_def Let_def)

lemma sqrt_400: "sqrt 400 = 20"
  by (rule real_sqrt_unique) simp_all

theorem collision_loses_normal_speed_witness:
  "collide cueRolling target =
     Some ((ballAt 0 CUE 98 100 True)\<lparr>vx := 2 / 10\<rparr>, (ballAt 1 SOLID 122 100 True)\<lparr>vx := 48 / 10\<rparr>)
   \<and> normal cueRolling target = Some (1, 0)
   \<and> relNormalVelocity cueRolling target (1, 0) = - 5
   \<and> \<bar>relNormalVelocity ((ballAt 0 CUE 98 100 True)\<lparr>vx := 2 / 10\<rparr>)
        ((ballAt 1 SOLID 122 100 True)\<lparr>vx := 48 / 10\<rparr>) (1, 0)\<bar> = 46 / 10
   \<and> kinetic ((ballAt 0 CUE 98 100 True)\<lparr>vx := 2 / 10\<rparr>)
       + kinetic ((ballAt 1 SOLID 122 100 True)\<lparr>vx := 48 / 10\<rparr>)
       \<le> kinetic cueRolling + kinetic target"
proof -
  have n: "normal cueRolling target = Some (1, 0)"
    by (simp add: normal_def cueRolling_def target_def ballAt_def Let_def sqrt_400)
  have c: "collide cueRolling target =
     Some ((ballAt 0 CUE 98 100 True)\<lparr>vx := 2 / 10\<rparr>, (ballAt 1 SOLID 122 100 True)\<lparr>vx := 48 / 10\<rparr>)"
    by (simp add: collide_def normal_def cueRolling_def target_def ballAt_def Let_def sqrt_400
        BALL_RADIUS_def BALL_RESTITUTION_def)
  have p: "relNormalVelocity cueRolling target (1, 0) = - 5"
    by (simp add: relNormalVelocity_def cueRolling_def target_def ballAt_def)
  from collision_loses_normal_speed [OF c n] c n p show ?thesis
    by (simp add: BALL_RESTITUTION_def)
qed

lemma rack8_positions:
  "map position (rackRows rnd 0 0 pattern) = map (slot rnd) grid8"
  by (simp add: pattern_def grid8_def slot_def position_def startY_def BALL_RADIUS_def eval_nat_numeral
      TABLE_HEIGHT_def)

lemma rack9_positions:
  "map position (rackNine rnd 0 (zip ids9 pos9)) = map (slot rnd) grid9"
  by (simp add: ids9_def pos9_def grid9_def slot_def position_def startY_def BALL_RADIUS_def eval_nat_numeral
      TABLE_HEIGHT_def)

lemma grid8_apart: "sorted_wrt gridApart grid8"
  by (simp add: grid8_def gridApart_def)

lemma grid9_apart: "sorted_wrt gridApart grid9"
  by (simp add: grid9_def gridApart_def)

lemma grid8_inside: "list_all gridInside grid8"
  by (simp add: grid8_def gridInside_def)

lemma grid9_inside: "list_all gridInside grid9"
  by (simp add: grid9_def gridInside_def)

lemma dist_rack_bounds: "212 / 10 < dist_rack \<and> dist_rack < 215 / 10"
proof -
  have "sqrt ((207 / 10)\<^sup>2) < sqrt 432"
    by (subst real_sqrt_less_iff) (simp add: power2_eq_square)
  then have l: "207 / 10 < sqrt 432"
    by simp
  have "sqrt 432 < sqrt (21\<^sup>2)"
    by (subst real_sqrt_less_iff) simp
  then have u: "sqrt 432 < 21"
    by simp
  have "dist_rack = sqrt 432 + 5 / 10"
    by (simp add: dist_rack_def BALL_RADIUS_def)
  with l u show ?thesis by simp
qed


lemma square_above:
  fixes a y :: real
  assumes "0 \<le> a" and "a < \<bar>y\<bar>"
  shows "a\<^sup>2 < y\<^sup>2"
proof -
  have "a\<^sup>2 < \<bar>y\<bar>\<^sup>2"
    using assms by (intro power_strict_mono) simp_all
  then show ?thesis by simp
qed

lemma gap_above_x:
  fixes a dx dy :: real
  shows "a < dx\<^sup>2 \<Longrightarrow> a < dx\<^sup>2 + dy\<^sup>2"
  using zero_le_power2 [of dy] by linarith

lemma gap_above_y:
  fixes a dx dy :: real
  shows "a < dy\<^sup>2 \<Longrightarrow> a < dx\<^sup>2 + dy\<^sup>2"
  using zero_le_power2 [of dx] by linarith

lemma slots_apart:
  assumes r: "\<forall>k. 0 \<le> rnd k \<and> rnd k < 1" and g: "gridApart g g'"
  shows "apartPos (slot rnd g) (slot rnd g')"
proof -
  obtain k c h where g1: "g = (k, c, h)"
    by (cases g)
  obtain k' c' h' where g2: "g' = (k', c', h')"
    by (cases g')
  define ex where "ex = rnd k' * (1 / 10) - rnd k * (1 / 10)"
  define ey where "ey = rnd (k' + 1) * (1 / 10) - rnd (k + 1) * (1 / 10)"
  define dx where "dx = real_of_int (c' - c) * dist_rack + ex"
  define dy where "dy = real_of_int (h' - h) * 12 + ey"
  have ex: "- (1 / 10) < ex \<and> ex < 1 / 10"
    using r [rule_format, of k] r [rule_format, of k'] by (simp add: ex_def)
  have ey: "- (1 / 10) < ey \<and> ey < 1 / 10"
    using r [rule_format, of "k + 1"] r [rule_format, of "k' + 1"] by (simp add: ey_def)
  have fx: "fst (slot rnd g') - fst (slot rnd g) = dx"
    by (simp add: g1 g2 slot_def dx_def ex_def algebra_simps)
  have fy: "snd (slot rnd g') - snd (slot rnd g) = dy"
    by (simp add: g1 g2 slot_def dy_def ey_def BALL_RADIUS_def algebra_simps)
  note D = dist_rack_bounds
  consider (same) "c = c'" "2 \<le> \<bar>h' - h\<bar>"
    | (adjacent) "\<bar>c' - c\<bar> = 1" "h \<noteq> h'"
    | (far) "2 \<le> \<bar>c' - c\<bar>"
    using g by (auto simp: gridApart_def g1 g2 split: if_splits)
  then show ?thesis
  proof cases
    case same
    then have "2 \<le> real_of_int (h' - h) \<or> real_of_int (h' - h) \<le> - 2"
      by linarith
    then have "239 / 10 < \<bar>dy\<bar>"
      using ey by (auto simp: dy_def)
    then have "(239 / 10)\<^sup>2 < dy\<^sup>2"
      by (intro square_above) simp_all
    then have "(239 / 10)\<^sup>2 < dx\<^sup>2 + dy\<^sup>2"
      by (rule gap_above_y)
    moreover have "dx = ex"
      using same by (simp add: dx_def)
    then have "\<bar>dx\<bar> < 1 / 10"
      using ex by linarith
    ultimately show ?thesis
      by (simp add: apartPos_def fx fy BALL_RADIUS_def Let_def)
  next
    case adjacent
    then have "real_of_int (c' - c) = 1 \<or> real_of_int (c' - c) = - 1"
      by (metis abs_eq_iff' of_int_1 of_int_minus zero_le_one)
    then have "211 / 10 < \<bar>dx\<bar>"
      using ex D by (auto simp: dx_def)
    then have x: "(211 / 10)\<^sup>2 < dx\<^sup>2"
      by (intro square_above) simp_all
    from adjacent have "1 \<le> real_of_int (h' - h) \<or> real_of_int (h' - h) \<le> - 1"
      by linarith
    then have "119 / 10 < \<bar>dy\<bar>"
      using ey by (auto simp: dy_def)
    then have y: "(119 / 10)\<^sup>2 < dy\<^sup>2"
      by (intro square_above) simp_all
    from x y have "576 \<le> dx\<^sup>2 + dy\<^sup>2"
      by (simp add: power2_eq_square)
    then show ?thesis
      by (simp add: apartPos_def fx fy BALL_RADIUS_def Let_def)
  next
    case far
    then have "2 \<le> real_of_int (c' - c) \<or> real_of_int (c' - c) \<le> - 2"
      by linarith
    then have "2 * dist_rack \<le> \<bar>real_of_int (c' - c) * dist_rack\<bar>"
      using D by (auto simp: abs_mult)
    then have "24 < \<bar>dx\<bar>"
      using ex D unfolding dx_def by linarith
    then have "24\<^sup>2 < dx\<^sup>2"
      by (intro square_above) simp_all
    then have "24\<^sup>2 < dx\<^sup>2 + dy\<^sup>2"
      by (rule gap_above_x)
    then show ?thesis
      by (simp add: apartPos_def fx fy BALL_RADIUS_def Let_def)
  qed
qed

lemma slot_inside:
  assumes r: "\<forall>k. 0 \<le> rnd k \<and> rnd k < 1" and g: "gridInside g"
  shows "insidePos (slot rnd g) \<and> 600 \<le> fst (slot rnd g)"
proof -
  obtain k c h where g1: "g = (k, c, h)"
    by (cases g)
  note D = dist_rack_bounds
  from g have c: "0 \<le> real_of_int c" "real_of_int c \<le> 4"
    and h: "- 4 \<le> real_of_int h" "real_of_int h \<le> 4"
    by (simp_all add: gridInside_def g1)
  have "0 \<le> real_of_int c * dist_rack"
    using c D by simp
  moreover have "real_of_int c * dist_rack \<le> 4 * (215 / 10)"
    using c D by (intro mult_mono) simp_all
  ultimately show ?thesis
    using r [rule_format, of k] r [rule_format, of "k + 1"] h
    by (simp add: insidePos_def slot_def g1 startX_def startY_def BALL_RADIUS_def
        TABLE_WIDTH_def TABLE_HEIGHT_def)
qed

lemma cue_apart:
  assumes "600 \<le> fst q"
  shows "apartPos (200, 200) q"
proof -
  have "24 < \<bar>fst q - 200\<bar>"
    using assms by simp
  then have "24\<^sup>2 < (fst q - 200)\<^sup>2"
    by (intro square_above) simp_all
  then have "24\<^sup>2 < (fst q - 200)\<^sup>2 + (snd q - 200)\<^sup>2"
    by (rule gap_above_x)
  then show ?thesis
    by (simp add: apartPos_def BALL_RADIUS_def Let_def)
qed

lemma grid_layout:
  assumes r: "\<forall>k. 0 \<le> rnd k \<and> rnd k < 1"
    and a: "sorted_wrt gridApart gs" and i: "list_all gridInside gs"
  shows "list_all insidePos ((200, 200) # map (slot rnd) gs)
       \<and> sorted_wrt apartPos ((200, 200) # map (slot rnd) gs)"
proof -
  have 1: "insidePos (200, 200)"
    by (simp add: insidePos_def BALL_RADIUS_def TABLE_WIDTH_def TABLE_HEIGHT_def)
  have 2: "list_all insidePos (map (slot rnd) gs)"
    using i slot_inside [OF r] by (simp add: list_all_iff)
  have 3: "\<forall>q\<in>set (map (slot rnd) gs). apartPos (200, 200) q"
    using i slot_inside [OF r] cue_apart by (auto simp: list_all_iff)
  have "sorted_wrt (\<lambda>g g'. apartPos (slot rnd g) (slot rnd g')) gs"
    using a by (rule sorted_wrt_mono_rel [rotated]) (rule slots_apart [OF r])
  then have 4: "sorted_wrt apartPos (map (slot rnd) gs)"
    by (simp add: sorted_wrt_map)
  from 1 2 3 4 show ?thesis by simp
qed

lemma rack_positions:
  "map position (rack rnd m) =
     (200, 200) # map (slot rnd) (if m = Mode8BALL then grid8 else grid9)"
  by (simp add: rack_def rack8_positions rack9_positions)
    (simp add: position_def cueStart_def TABLE_HEIGHT_def)

lemma rack_layout_positions:
  assumes r: "\<forall>k. 0 \<le> rnd k \<and> rnd k < 1"
  shows "list_all insidePos (map position (rack rnd m))
       \<and> sorted_wrt apartPos (map position (rack rnd m))"
  unfolding rack_positions
  using grid_layout [OF r grid8_apart grid8_inside] grid_layout [OF r grid9_apart grid9_inside]
  by simp

text \<open>
  Claim C9, amended. For every outcome of the jitter and in both variants, every racked
  ball lies inside the table, and two racked balls either do not overlap or are neighbours
  in one column (their \<open>x\<close> differ by less than the jitter) with centres more than
  \<open>2 * BALL_RADIUS - 0.1\<close> apart.
\<close>

theorem rack_layout:
  assumes "\<forall>k. 0 \<le> rnd k \<and> rnd k < 1"
  shows "(\<forall>b\<in>set (balls (initRound rnd s)).
            BALL_RADIUS \<le> x_b b \<and> x_b b \<le> TABLE_WIDTH - BALL_RADIUS
            \<and> BALL_RADIUS \<le> y_b b \<and> y_b b \<le> TABLE_HEIGHT - BALL_RADIUS)
       \<and> (\<forall>i j. i < j \<and> j < length (balls (initRound rnd s)) \<longrightarrow>
            (2 * BALL_RADIUS)\<^sup>2
              \<le> centreGap2 (balls (initRound rnd s) ! i) (balls (initRound rnd s) ! j)
            \<or> (\<bar>x_b (balls (initRound rnd s) ! j) - x_b (balls (initRound rnd s) ! i)\<bar> < 1 / 10
               \<and> (2 * BALL_RADIUS - 1 / 10)\<^sup>2
                   < centreGap2 (balls (initRound rnd s) ! i) (balls (initRound rnd s) ! j)))"
proof -
  define bs where "bs = rack rnd (mode s)"
  have b: "balls (initRound rnd s) = bs"
    by (simp add: initRound_def bs_def)
  from rack_layout_positions [OF assms, of "mode s"]
  have 1: "list_all (\<lambda>b. insidePos (position b)) bs"
    and 2: "sorted_wrt (\<lambda>b1 b2. apartPos (position b1) (position b2)) bs"
    by (simp_all add: bs_def list_all_iff sorted_wrt_map)
  from 1 have i: "\<forall>b\<in>set bs.
            BALL_RADIUS \<le> x_b b \<and> x_b b \<le> TABLE_WIDTH - BALL_RADIUS
            \<and> BALL_RADIUS \<le> y_b b \<and> y_b b \<le> TABLE_HEIGHT - BALL_RADIUS"
    by (simp add: list_all_iff insidePos_def position_def)
  from 2 have "\<forall>i j. i < j \<longrightarrow> j < length bs \<longrightarrow> apartPos (position (bs ! i)) (position (bs ! j))"
    by (simp add: sorted_wrt_iff_nth_less)
  then have p: "\<forall>i j. i < j \<and> j < length bs \<longrightarrow>
            (2 * BALL_RADIUS)\<^sup>2 \<le> centreGap2 (bs ! i) (bs ! j)
            \<or> (\<bar>x_b (bs ! j) - x_b (bs ! i)\<bar> < 1 / 10
               \<and> (2 * BALL_RADIUS - 1 / 10)\<^sup>2 < centreGap2 (bs ! i) (bs ! j))"
    by (simp add: apartPos_def position_def centreGap2_def Let_def)
  from i p show ?thesis
    unfolding b by blast
qed

lemma nearJitter_range: "\<forall>k. 0 \<le> nearJitter k \<and> nearJitter k < 1"
  by (simp add: nearJitter_def)

lemma near_rack:
  "rack nearJitter Mode8BALL ! 2 =
     \<lparr>id_b = 2, x_b = 600 + dist_rack, y_b = 18809 / 100, vx = 0, vy = 0, active = True, type_b = SOLID\<rparr>
   \<and> rack nearJitter Mode8BALL ! 3 =
     \<lparr>id_b = 9, x_b = 600 + dist_rack, y_b = 212, vx = 0, vy = 0, active = True, type_b = STRIPE\<rparr>"
  by (simp add: rack_def pattern_def nearJitter_def startX_def startY_def TABLE_HEIGHT_def
      BALL_RADIUS_def eval_nat_numeral)

text \<open>
  Claim C9, counterexample. With the jitter \<open>nearJitter\<close> the eight-ball rack puts balls 2
  and 9 at a distance of 23.91, less than two radii.
\<close>

theorem rack_overlap:
  "id_b (balls (initRound nearJitter (tableOf Mode8BALL [] emptyTurnInfo)) ! 2) = 2
   \<and> id_b (balls (initRound nearJitter (tableOf Mode8BALL [] emptyTurnInfo)) ! 3) = 9
   \<and> centreGap2 (balls (initRound nearJitter (tableOf Mode8BALL [] emptyTurnInfo)) ! 2)
        (balls (initRound nearJitter (tableOf Mode8BALL [] emptyTurnInfo)) ! 3)
      = (2391 / 100)\<^sup>2
   \<and> centreGap2 (balls (initRound nearJitter (tableOf Mode8BALL [] emptyTurnInfo)) ! 2)
        (balls (initRound nearJitter (tableOf Mode8BALL [] emptyTurnInfo)) ! 3)
      < (2 * BALL_RADIUS)\<^sup>2"
proof -
  have b: "balls (initRound nearJitter (tableOf Mode8BALL [] emptyTurnInfo)) = rack nearJitter Mode8BALL"
    by (simp add: initRound_def tableOf_def)
  show ?thesis
    unfolding b by (simp add: near_rack centreGap2_def BALL_RADIUS_def power2_eq_square)
qed

theorem rack_layout_witness:
  "BALL_RADIUS \<le> x_b (rack nearJitter Mode8BALL ! 2)
   \<and> \<bar>x_b (rack nearJitter Mode8BALL ! 3) - x_b (rack nearJitter Mode8BALL ! 2)\<bar> < 1 / 10
   \<and> (2 * BALL_RADIUS - 1 / 10)\<^sup>2
       < centreGap2 (rack nearJitter Mode8BALL ! 2) (rack nearJitter Mode8BALL ! 3)"
proof -
  let ?s = "tableOf Mode8BALL [] emptyTurnInfo"
  have b: "balls (initRound nearJitter ?s) = rack nearJitter Mode8BALL"
    by (simp add: initRound_def tableOf_def)
  have l: "length (rack nearJitter Mode8BALL) = 16"
    by (simp add: rack_def pattern_def)
  have m: "rack nearJitter Mode8BALL ! 2 \<in> set (rack nearJitter Mode8BALL)"
    by (rule nth_mem) (simp add: l)
  have o: "\<not> (2 * BALL_RADIUS)\<^sup>2
      \<le> centreGap2 (rack nearJitter Mode8BALL ! 2) (rack nearJitter Mode8BALL ! 3)"
    by (simp add: near_rack centreGap2_def BALL_RADIUS_def power2_eq_square)
  from rack_layout [OF nearJitter_range, of ?s, unfolded b]
  have 1: "BALL_RADIUS \<le> x_b (rack nearJitter Mode8BALL ! 2)"
    and 2: "(2 * BALL_RADIUS)\<^sup>2
              \<le> centreGap2 (rack nearJitter Mode8BALL ! 2) (rack nearJitter Mode8BALL ! 3)
            \<or> (\<bar>x_b (rack nearJitter Mode8BALL ! 3) - x_b (rack nearJitter Mode8BALL ! 2)\<bar> < 1 / 10
               \<and> (2 * BALL_RADIUS - 1 / 10)\<^sup>2
                   < centreGap2 (rack nearJitter Mode8BALL ! 2) (rack nearJitter Mode8BALL ! 3))"
    using m l by auto
  from 1 2 o show ?thesis by blast
qed

lemma collide_tag:
  "collide b1 b2 = Some (c1, c2) \<Longrightarrow> tag c1 = tag b1 \<and> tag c2 = tag b2"
  by (auto simp: collide_def tag_def Let_def split: option.splits)

lemma pairStep_tag:
  "pairStep placing b1 b2 h = Some (c1, c2, h') \<Longrightarrow> tag c1 = tag b1 \<and> tag c2 = tag b2"
  by (auto simp: pairStep_def split: if_splits option.splits dest: collide_tag)

lemma innerLoop_tag:
  "innerLoop placing b1 rest h = Some (c1, rest', h')
   \<Longrightarrow> tag c1 = tag b1 \<and> map tag rest' = map tag rest"
proof (induction rest arbitrary: b1 h c1 rest' h')
  case Nil
  then show ?case by simp
next
  case (Cons b2 rest)
  from Cons.prems obtain d1 d2 h1 r1 where
    p: "pairStep placing b1 b2 h = Some (d1, d2, h1)"
    and i: "innerLoop placing d1 rest h1 = Some (c1, r1, h')"
    and r: "rest' = d2 # r1"
    by (auto split: option.splits)
  from pairStep_tag [OF p] Cons.IH [OF i] r show ?case
    by simp
qed

lemma outerFrom_tag:
  "outerFrom placing n bs h = Some (bs', h') \<Longrightarrow> map tag bs' = map tag bs"
proof (induction n arbitrary: bs h bs' h')
  case 0
  then show ?case by simp
next
  case (Suc n)
  show ?case
  proof (cases bs)
    case Nil
    with Suc.prems show ?thesis by simp
  next
    case (Cons b1 rest)
    with Suc.prems obtain c1 r1 h1 r2 where
      i: "innerLoop placing b1 rest h = Some (c1, r1, h1)"
      and o: "outerFrom placing n r1 h1 = Some (r2, h')"
      and r: "bs' = c1 # r2"
      by (auto split: option.splits)
    from innerLoop_tag [OF i] Suc.IH [OF o] r Cons show ?thesis
      by simp
  qed
qed

lemma tag_id: "map tag bs' = map tag bs \<Longrightarrow> map id_b bs' = map id_b bs"
proof -
  assume "map tag bs' = map tag bs"
  then have "map (fst \<circ> tag) bs' = map (fst \<circ> tag) bs"
    by (metis map_map)
  then show ?thesis
    by (simp add: tag_def comp_def)
qed

lemma moveBall_id: "id_b (fst (moveBall b)) = id_b b"
proof -
  have i: "id_b (fst (integrate b)) = id_b b"
    by (simp add: integrate_def Let_def)
  have w: "id_b (walls c) = id_b c" for c
    by (simp add: walls_def wallLeft_def wallRight_def wallTop_def wallBottom_def)
  obtain b1 mv where e: "integrate b = (b1, mv)"
    by (cases "integrate b")
  with i have "id_b b1 = id_b b"
    by simp
  then show ?thesis
    by (simp add: moveBall_def e w Let_def)
qed

lemma stepBalls_id: "map id_b (fst (stepBalls placing bs)) = map id_b bs"
proof (induction bs)
  case Nil
  then show ?case by simp
next
  case (Cons b bs)
  obtain b' mv pot where s: "stepBall placing b = (b', mv, pot)"
    by (cases "stepBall placing b")
  obtain bs' mv' pots where r: "stepBalls placing bs = (bs', mv', pots)"
    by (cases "stepBalls placing bs")
  have "id_b (fst (stepBall placing b)) = id_b b"
    by (simp add: stepBall_def moveBall_id)
  with Cons show ?case
    by (simp add: s r)
qed

lemma cueFirst_ids: "map id_b bs' = map id_b bs \<Longrightarrow> cueFirst bs' = cueFirst bs"
proof -
  assume m: "map id_b bs' = map id_b bs"
  have "cueFirst xs = (case map id_b xs of [] \<Rightarrow> False | i # is \<Rightarrow> i = 0 \<and> 0 \<notin> set is)" for xs
    by (cases xs) (auto simp: cueFirst_def list_all_iff)
  then show ?thesis
    using m by simp
qed

lemma pairStep_noCue:
  assumes "id_b b1 \<noteq> 0" and "id_b b2 \<noteq> 0" and "pairStep placing b1 b2 h = Some (c1, c2, h')"
  shows "h' = h"
  using pairStep_firstHit [OF assms(3)] assms(1,2) by simp


lemma ids_nonzero:
  assumes "list_all (\<lambda>b. id_b b \<noteq> 0) rest" and "map id_b r1 = map id_b rest"
  shows "list_all (\<lambda>b. id_b b \<noteq> 0) r1"
proof -
  from assms(2) have "set (map id_b r1) = set (map id_b rest)"
    by simp
  then have "id_b ` set r1 = id_b ` set rest"
    by simp
  moreover have "0 \<notin> id_b ` set rest"
    using assms(1) by (auto simp: list_all_iff)
  ultimately have "0 \<notin> id_b ` set r1"
    by simp
  then show ?thesis
    by (auto simp: list_all_iff)
qed

lemma innerLoop_noCue:
  "id_b b1 \<noteq> 0 \<Longrightarrow> list_all (\<lambda>b. id_b b \<noteq> 0) rest
   \<Longrightarrow> innerLoop placing b1 rest h = Some (c1, rest', h') \<Longrightarrow> h' = h"
proof (induction rest arbitrary: b1 h c1 rest' h')
  case Nil
  then show ?case by simp
next
  case (Cons b2 rest)
  from Cons.prems(3) obtain d1 d2 h1 r1 where
    p: "pairStep placing b1 b2 h = Some (d1, d2, h1)"
    and i: "innerLoop placing d1 rest h1 = Some (c1, r1, h')"
    by (auto split: option.splits)
  have b2: "id_b b2 \<noteq> 0" and r: "list_all (\<lambda>b. id_b b \<noteq> 0) rest"
    using Cons.prems(2) by simp_all
  have h1: "h1 = h"
    by (rule pairStep_noCue [OF Cons.prems(1) b2 p])
  have "id_b d1 \<noteq> 0"
    using pairStep_tag [OF p] Cons.prems(1) by (simp add: tag_def)
  from Cons.IH [OF this r i] h1 show ?case
    by simp
qed

lemma outerFrom_noCue:
  "list_all (\<lambda>b. id_b b \<noteq> 0) bs \<Longrightarrow> outerFrom placing n bs h = Some (bs', h') \<Longrightarrow> h' = h"
proof (induction n arbitrary: bs h bs' h')
  case 0
  then show ?case by simp
next
  case (Suc n)
  show ?case
  proof (cases bs)
    case Nil
    with Suc.prems show ?thesis by simp
  next
    case (Cons b1 rest)
    with Suc.prems(2) obtain c1 r1 h1 r2 where
      i: "innerLoop placing b1 rest h = Some (c1, r1, h1)"
      and o: "outerFrom placing n r1 h1 = Some (r2, h')"
      by (auto split: option.splits)
    have b1: "id_b b1 \<noteq> 0" and r: "list_all (\<lambda>b. id_b b \<noteq> 0) rest"
      using Suc.prems(1) Cons by simp_all
    have h1: "h1 = h"
      by (rule innerLoop_noCue [OF b1 r i])
    have "map id_b r1 = map id_b rest"
      using innerLoop_tag [OF i] by (intro tag_id) simp
    with r have "list_all (\<lambda>b. id_b b \<noteq> 0) r1"
      by (rule ids_nonzero)
    from Suc.IH [OF this o] h1 show ?thesis
      by simp
  qed
qed

lemma innerLoop_cue:
  "id_b cue = 0 \<Longrightarrow> list_all (\<lambda>b. id_b b \<noteq> 0) rest
   \<Longrightarrow> innerLoop placing cue rest None = Some (c1, rest', h')
   \<Longrightarrow> h' = map_option id_b (find (inContact placing cue) rest)"
proof (induction rest arbitrary: rest')
  case Nil
  then show ?case by simp
next
  case (Cons b2 rest)
  from Cons.prems(3) obtain d1 d2 h1 r1 where
    p: "pairStep placing cue b2 None = Some (d1, d2, h1)"
    and i: "innerLoop placing d1 rest h1 = Some (c1, r1, h')"
    by (auto split: option.splits)
  have r: "list_all (\<lambda>b. id_b b \<noteq> 0) rest"
    using Cons.prems(2) by simp
  show ?case
  proof (cases "inContact placing cue b2")
    case True
    then have "h1 = Some (id_b b2)"
      using pairStep_firstHit [OF p] Cons.prems(1) by simp
    with i have "h' = Some (id_b b2)"
      using innerLoop_keeps [of placing d1 rest "id_b b2" c1 r1 h'] by simp
    with True show ?thesis by simp
  next
    case False
    with p have "d1 = cue" and "h1 = None"
      by (simp_all add: pairStep_def)
    with i Cons.IH [OF Cons.prems(1) r] False show ?thesis
      by simp
  qed
qed

lemma outerLoop_cue:
  assumes "id_b cue = 0" and "list_all (\<lambda>b. id_b b \<noteq> 0) rest"
    and "outerLoop placing (cue # rest) None = Some (bs', h')"
  shows "h' = map_option id_b (find (inContact placing cue) rest)"
proof -
  from assms(3) obtain c1 r1 h1 r2 where
    i: "innerLoop placing cue rest None = Some (c1, r1, h1)"
    and o: "outerFrom placing (length rest) r1 h1 = Some (r2, h')"
    by (auto simp: outerLoop_def split: option.splits)
  have "map id_b r1 = map id_b rest"
    using innerLoop_tag [OF i] by (intro tag_id) simp
  with assms(2) have "list_all (\<lambda>b. id_b b \<noteq> 0) r1"
    by (rule ids_nonzero)
  from outerFrom_noCue [OF this o] innerLoop_cue [OF assms(1,2) i] show ?thesis
    by simp
qed

lemma subStep_parts:
  assumes "subStep (s, mv, ps) = Some (s', mv', ps')"
  shows "\<exists>h'. outerLoop (placingBallRef s) (fst (stepBalls (placingBallRef s) (balls s)))
            (firstHitId (turnInfo s)) = Some (balls s', h')
          \<and> firstHitId (turnInfo s') = h'"
    and "placingBallRef s' = placingBallRef s"
proof -
  obtain bs1 m1 p1 where st: "stepBalls (placingBallRef s) (balls s) = (bs1, m1, p1)"
    by (cases "stepBalls (placingBallRef s) (balls s)")
  from assms obtain bs2 h where
    o: "outerLoop (placingBallRef s) bs1 (firstHitId (turnInfo s)) = Some (bs2, h)"
    and b: "balls s' = bs2" and f: "firstHitId (turnInfo s') = h"
    and p: "placingBallRef s' = placingBallRef s"
    by (cases "9 \<in> set p1";
        cases "outerLoop (placingBallRef s) bs1 (firstHitId (turnInfo s))")
      (auto simp: subStep_def st Let_def)
  show "\<exists>h'. outerLoop (placingBallRef s) (fst (stepBalls (placingBallRef s) (balls s)))
            (firstHitId (turnInfo s)) = Some (balls s', h')
          \<and> firstHitId (turnInfo s') = h'"
    using o b f by (simp add: st)
  show "placingBallRef s' = placingBallRef s"
    by (rule p)
qed

lemma subStep_ids:
  assumes "subStep (s, mv, ps) = Some (s', mv', ps')"
  shows "map id_b (balls s') = map id_b (balls s)"
proof -
  from subStep_parts(1) [OF assms] obtain h' where
    "outerLoop (placingBallRef s) (fst (stepBalls (placingBallRef s) (balls s)))
       (firstHitId (turnInfo s)) = Some (balls s', h')"
    by blast
  then have "map tag (balls s') = map tag (fst (stepBalls (placingBallRef s) (balls s)))"
    by (auto simp: outerLoop_def dest: outerFrom_tag)
  then have "map id_b (balls s') = map id_b (fst (stepBalls (placingBallRef s) (balls s)))"
    by (rule tag_id)
  then show ?thesis
    by (simp only: stepBalls_id)
qed

lemma subStep_records:
  assumes c: "cueFirst (balls s)" and n: "firstHitId (turnInfo s) = None"
    and st: "subStep (s, mv, ps) = Some (s', mv', ps')"
  shows "firstHitId (turnInfo s') = cueContact (placingBallRef s) (balls s)"
proof -
  define bs1 where "bs1 = fst (stepBalls (placingBallRef s) (balls s))"
  have "cueFirst bs1"
    using c cueFirst_ids [OF stepBalls_id [of "placingBallRef s" "balls s"]] by (simp add: bs1_def)
  then obtain cue rest where b: "bs1 = cue # rest" and i: "id_b cue = 0"
    and r: "list_all (\<lambda>b. id_b b \<noteq> 0) rest"
    by (auto simp: cueFirst_def split: list.splits)
  from subStep_parts(1) [OF st] n b
  have "outerLoop (placingBallRef s) (cue # rest) None = Some (balls s', firstHitId (turnInfo s'))"
    by (auto simp: bs1_def)
  from outerLoop_cue [OF i r this] show ?thesis
    by (simp add: cueContact_def bs1_def [symmetric] b)
qed

lemma subSteps_add:
  "subSteps (k + m) st = (case subSteps k st of None \<Rightarrow> None | Some st' \<Rightarrow> subSteps m st')"
  by (induction k arbitrary: st) (simp_all split: option.splits)

lemma subSteps_ids:
  "subSteps n (s, mv, ps) = Some (s', mv', ps')
   \<Longrightarrow> map id_b (balls s') = map id_b (balls s) \<and> placingBallRef s' = placingBallRef s"
proof (induction n arbitrary: s mv ps)
  case 0
  then show ?case by simp
next
  case (Suc n)
  then obtain s1 mv1 ps1 where 1: "subStep (s, mv, ps) = Some (s1, mv1, ps1)"
    and 2: "subSteps n (s1, mv1, ps1) = Some (s', mv', ps')"
    by (auto split: option.splits)
  from subStep_ids [OF 1] subStep_parts(2) [OF 1] Suc.IH [OF 2] show ?case
    by simp
qed

lemma frame_records:
  assumes c: "cueFirst (balls s)"
    and k: "subSteps k (s, mv, ps) = Some (sk, mvk, psk)"
    and n: "firstHitId (turnInfo sk) = None"
    and h: "cueContact (placingBallRef sk) (balls sk) = Some h"
    and l: "k < n"
    and e: "subSteps n (s, mv, ps) = Some (s', mv', ps')"
  shows "firstHitId (turnInfo s') = Some h"
proof -
  from l obtain m where "n = Suc (k + m)"
    by (rule less_imp_Suc_add [THEN exE])
  then have m: "n = k + Suc m"
    by simp
  have "subSteps (k + Suc m) (s, mv, ps) = subSteps (Suc m) (sk, mvk, psk)"
    by (simp only: subSteps_add k option.case)
  with e have "subSteps (Suc m) (sk, mvk, psk) = Some (s', mv', ps')"
    by (simp only: m)
  then have "(case subStep (sk, mvk, psk) of None \<Rightarrow> None | Some st' \<Rightarrow> subSteps m st')
      = Some (s', mv', ps')"
    by (simp only: subSteps.simps)
  then obtain s1 mv1 ps1 where 1: "subStep (sk, mvk, psk) = Some (s1, mv1, ps1)"
    and 2: "subSteps m (s1, mv1, ps1) = Some (s', mv', ps')"
    by (cases "subStep (sk, mvk, psk)") auto
  have "map id_b (balls sk) = map id_b (balls s)"
    using subSteps_ids [OF k] by (rule conjunct1)
  from cueFirst_ids [OF this] c have "cueFirst (balls sk)"
    by (simp only:)
  from subStep_records [OF this n 1] h have "firstHitId (turnInfo s1) = Some h"
    by (simp only:)
  from subSteps_keeps [OF 2 this] show ?thesis .
qed


lemma sqrt_break:
  "sqrt 256 = 16"
  "sqrt 529 = 23"
  "sqrt (654899281 / 1600000000) = 25591 / 40000"
  "sqrt (5894093529 / 25000000) = 76773 / 5000"
  "sqrt (160858489 / 400000000) = 12683 / 20000"
  "sqrt (376945653681 / 1600000000) = 613959 / 40000"
  "sqrt (632069881 / 1600000000) = 25141 / 40000"
  "sqrt (94167355689 / 400000000) = 306867 / 20000"
  "sqrt (38800441 / 100000000) = 6229 / 10000"
  "sqrt (376393293081 / 1600000000) = 613509 / 40000"
  "sqrt (609645481 / 1600000000) = 24691 / 40000"
  "sqrt (23507329041 / 100000000) = 153321 / 10000"
  "sqrt (149646289 / 400000000) = 12233 / 20000"
  "sqrt (375841337481 / 1600000000) = 613059 / 40000"
  "sqrt (587626081 / 1600000000) = 24241 / 40000"
  "sqrt (93891377889 / 400000000) = 306417 / 20000"
  by (rule real_sqrt_unique; simp add: power2_eq_square)+

lemma break_frame:
  "subSteps SUB_STEPS (breakState h0, False, []) = Some (brokenState h0, True, [])"
  by (cases h0)
    (simp_all add: breakState_def brokenState_def breakBalls_def brokenBalls_def phys_unfold
      sqrt_break subSteps_numeral)


lemma rack_cueFirst: "cueFirst (rack rnd m)"
  by (simp add: rack_def cueFirst_def cueStart_def pattern_def ids9_def pos9_def)

lemma endFrame_moving:
  "firstHitId (turnInfo (endFrame s (s1, True, potted))) = firstHitId (turnInfo s1)
   \<and> isMoving (endFrame s (s1, True, potted))"
  by (simp add: endFrame_def Let_def handlePotLogic_turnInfo)

lemma endFrame_still: "\<not> isMoving (endFrame s (s1, False, potted))"
  by (simp add: endFrame_def Let_def handleTurnEnd_isMoving)

lemma updatePhysics_moving:
  assumes "updatePhysics s = Some s''" and "isMoving s''"
  shows "\<exists>s1 potted. subSteps SUB_STEPS (s, False, []) = Some (s1, True, potted)
           \<and> firstHitId (turnInfo s'') = firstHitId (turnInfo s1)"
proof -
  from assms(1) obtain s1 moving potted where
    1: "subSteps SUB_STEPS (s, False, []) = Some (s1, moving, potted)"
    and 2: "s'' = endFrame s (s1, moving, potted)"
    by (auto simp: updatePhysics_def split: option.splits)
  have "moving"
    using assms(2) endFrame_still [of s s1 potted] by (cases moving) (simp_all add: 2)
  with 1 2 endFrame_moving [of s s1 potted] show ?thesis
    by simp
qed

text \<open>
  Claim C7. The only assignments of \<open>firstHitId\<close> in a frame are the two after a
  collision: a pair step sets it to the object ball's id when it is still empty and the
  cue ball is one of the two balls in contact, and leaves it as it is in every other case.
  With the cue ball first in the list, as every rack has it, a sub-step that starts with
  an empty \<open>firstHitId\<close> ends with the first ball the cue ball touches in it, or empty
  when it touches none; the first sub-step of a frame with such a contact fixes the value
  for the rest of the frame, and for the result of \<open>updatePhysics\<close> while balls move. A
  value once set goes unchanged through all sub-steps and through every frame that ends
  with balls still moving (the turn-end evaluation is the next to touch it).
\<close>

theorem firstHitId_first_contact:
  "(pairStep placing b1 b2 g = Some (c1, c2, g') \<longrightarrow>
      g' = (if g = None \<and> inContact placing b1 b2 \<and> id_b b1 = 0 then Some (id_b b2)
            else if g = None \<and> inContact placing b1 b2 \<and> id_b b2 = 0 then Some (id_b b1)
            else g))
   \<and> cueFirst (balls (initRound rnd s0))
   \<and> (cueFirst (balls s) \<and> subStep (s, mv, ps) = Some (s1, mv1, ps1) \<longrightarrow>
        cueFirst (balls s1)
        \<and> firstHitId (turnInfo s1) =
            (case firstHitId (turnInfo s) of
               Some f \<Rightarrow> Some f
             | None \<Rightarrow> cueContact (placingBallRef s) (balls s)))
   \<and> (cueFirst (balls s) \<and> subSteps k (s, mv, ps) = Some (sk, mvk, psk)
        \<and> firstHitId (turnInfo sk) = None
        \<and> cueContact (placingBallRef sk) (balls sk) = Some h
        \<and> k < n \<and> subSteps n (s, mv, ps) = Some (s', mv', ps') \<longrightarrow>
        firstHitId (turnInfo s') = Some h)
   \<and> (cueFirst (balls s) \<and> subSteps k (s, False, []) = Some (sk, mvk, psk)
        \<and> firstHitId (turnInfo sk) = None
        \<and> cueContact (placingBallRef sk) (balls sk) = Some h
        \<and> k < SUB_STEPS \<and> updatePhysics s = Some s'' \<and> isMoving s'' \<longrightarrow>
        firstHitId (turnInfo s'') = Some h)
   \<and> (subSteps n (s, mv, ps) = Some (s', mv', ps') \<and> firstHitId (turnInfo s) = Some h \<longrightarrow>
        firstHitId (turnInfo s') = Some h)
   \<and> (updatePhysics s = Some s'' \<and> isMoving s'' \<and> firstHitId (turnInfo s) = Some h \<longrightarrow>
        firstHitId (turnInfo s'') = Some h)"
proof (intro conjI impI)
  assume "pairStep placing b1 b2 g = Some (c1, c2, g')"
  then show "g' = (if g = None \<and> inContact placing b1 b2 \<and> id_b b1 = 0 then Some (id_b b2)
            else if g = None \<and> inContact placing b1 b2 \<and> id_b b2 = 0 then Some (id_b b1)
            else g)"
    by (rule pairStep_firstHit)
next
  show "cueFirst (balls (initRound rnd s0))"
    by (simp add: initRound_def rack_cueFirst)
next
  assume a: "cueFirst (balls s) \<and> subStep (s, mv, ps) = Some (s1, mv1, ps1)"
  then have "map id_b (balls s1) = map id_b (balls s)"
    using subStep_ids [of s mv ps s1 mv1 ps1] by simp
  from cueFirst_ids [OF this] a show "cueFirst (balls s1)"
    by simp
next
  assume a: "cueFirst (balls s) \<and> subStep (s, mv, ps) = Some (s1, mv1, ps1)"
  show "firstHitId (turnInfo s1) =
      (case firstHitId (turnInfo s) of
         Some f \<Rightarrow> Some f
       | None \<Rightarrow> cueContact (placingBallRef s) (balls s))"
  proof (cases "firstHitId (turnInfo s)")
    case None
    with a subStep_records [of s mv ps s1 mv1 ps1] show ?thesis
      by simp
  next
    case (Some f)
    with a subStep_keeps [of s mv ps s1 mv1 ps1 f] show ?thesis
      by simp
  qed
next
  assume "cueFirst (balls s) \<and> subSteps k (s, mv, ps) = Some (sk, mvk, psk)
        \<and> firstHitId (turnInfo sk) = None
        \<and> cueContact (placingBallRef sk) (balls sk) = Some h
        \<and> k < n \<and> subSteps n (s, mv, ps) = Some (s', mv', ps')"
  then show "firstHitId (turnInfo s') = Some h"
    using frame_records [of s k mv ps sk mvk psk h n s' mv' ps'] by simp
next
  assume a: "cueFirst (balls s) \<and> subSteps k (s, False, []) = Some (sk, mvk, psk)
        \<and> firstHitId (turnInfo sk) = None
        \<and> cueContact (placingBallRef sk) (balls sk) = Some h
        \<and> k < SUB_STEPS \<and> updatePhysics s = Some s'' \<and> isMoving s''"
  then obtain s1 potted where
    1: "subSteps SUB_STEPS (s, False, []) = Some (s1, True, potted)"
    and 2: "firstHitId (turnInfo s'') = firstHitId (turnInfo s1)"
    using updatePhysics_moving [of s s''] by blast
  from a 1 frame_records [of s k False "[]" sk mvk psk h SUB_STEPS s1 True potted]
  have "firstHitId (turnInfo s1) = Some h"
    by simp
  with 2 show "firstHitId (turnInfo s'') = Some h"
    by simp
next
  assume "subSteps n (s, mv, ps) = Some (s', mv', ps') \<and> firstHitId (turnInfo s) = Some h"
  then show "firstHitId (turnInfo s') = Some h"
    using subSteps_keeps [of n s mv ps s' mv' ps' h] by simp
next
  assume a: "updatePhysics s = Some s'' \<and> isMoving s'' \<and> firstHitId (turnInfo s) = Some h"
  then obtain s1 potted where
    1: "subSteps SUB_STEPS (s, False, []) = Some (s1, True, potted)"
    and 2: "firstHitId (turnInfo s'') = firstHitId (turnInfo s1)"
    using updatePhysics_moving [of s s''] by blast
  from a subSteps_keeps [OF 1, of h] have "firstHitId (turnInfo s1) = Some h"
    by simp
  with 2 show "firstHitId (turnInfo s'') = Some h"
    by simp
qed

lemma break_update:
  "updatePhysics (breakState h0) = Some ((brokenState h0)\<lparr>isMoving := True\<rparr>)"
  by (simp add: updatePhysics_def break_frame endFrame_def)

lemma break_contact:
  "cueFirst (balls (breakState h0)) \<and> placingBallRef (breakState h0) = False
   \<and> cueContact False (balls (breakState h0)) = Some 1"
  by (simp add: breakState_def breakBalls_def tableOf_def cueFirst_def cueContact_def ballAt_def
      SUB_STEPS_def stepBall_def skipped_def moveBall_def integrate_def walls_def wallLeft_def
      wallRight_def wallTop_def wallBottom_def pocketed_def POCKETS_def POCKET_RADIUS_def
      TABLE_WIDTH_def TABLE_HEIGHT_def BALL_RADIUS_def DECELERATION_def STOP_THRESHOLD_def
      inContact_def touching_def Let_def power2_eq_square sqrt_break)

theorem firstHitId_first_contact_witness:
  "pairStep False (ballAt 0 CUE (3599 / 100) 200 True) (ballAt 1 SOLID 12 200 True) None
     = Some (ballAt 0 CUE (7199 / 200) 200 True, ballAt 1 SOLID (2399 / 200) 200 True, Some 1)
   \<and> firstHitId (turnInfo (breakState None)) = None
   \<and> cueContact (placingBallRef (breakState None)) (balls (breakState None)) = Some 1
   \<and> subStep (breakState None, False, []) \<noteq> None
   \<and> subSteps SUB_STEPS (breakState None, False, []) = Some (brokenState None, True, [])
   \<and> firstHitId (turnInfo (brokenState None)) = Some 1
   \<and> updatePhysics (breakState None) = Some ((brokenState None)\<lparr>isMoving := True\<rparr>)
   \<and> firstHitId (turnInfo ((brokenState None)\<lparr>isMoving := True\<rparr>)) = Some 1
   \<and> firstHitId (turnInfo (breakState (Some 3))) = Some 3
   \<and> subSteps SUB_STEPS (breakState (Some 3), False, []) = Some (brokenState (Some 3), True, [])
   \<and> firstHitId (turnInfo (brokenState (Some 3))) = Some 3
   \<and> updatePhysics (breakState (Some 3)) = Some ((brokenState (Some 3))\<lparr>isMoving := True\<rparr>)
   \<and> firstHitId (turnInfo ((brokenState (Some 3))\<lparr>isMoving := True\<rparr>)) = Some 3"
proof -
  have p: "pairStep False (ballAt 0 CUE (3599 / 100) 200 True) (ballAt 1 SOLID 12 200 True) None
     = Some (ballAt 0 CUE (7199 / 200) 200 True, ballAt 1 SOLID (2399 / 200) 200 True,
         recordHit (ballAt 0 CUE (7199 / 200) 200 True) (ballAt 1 SOLID (2399 / 200) 200 True) None)"
    by (simp add: phys_unfold sqrt_facts)
  have c: "inContact False (ballAt 0 CUE (3599 / 100) 200 True) (ballAt 1 SOLID 12 200 True)"
    by (simp add: phys_unfold)
  have i: "id_b (ballAt 0 CUE (3599 / 100) 200 True) = 0" "id_b (ballAt 1 SOLID 12 200 True) = 1"
    by (simp_all add: ballAt_def)
  note t = firstHitId_first_contact
  have 1: "recordHit (ballAt 0 CUE (7199 / 200) 200 True) (ballAt 1 SOLID (2399 / 200) 200 True) None
      = Some 1"
    using t [THEN conjunct1, rule_format, OF p] c i by simp
  have n: "firstHitId (turnInfo (breakState None)) = None"
    and m: "firstHitId (turnInfo (breakState (Some 3))) = Some 3"
    by (simp_all add: breakState_def tableOf_def)
  have z: "subSteps 0 (breakState None, False, []) = Some (breakState None, False, [])"
    by simp
  have l: "0 < SUB_STEPS"
    by (simp add: SUB_STEPS_def)
  have e: "subStep (breakState None, False, []) \<noteq> None"
    using break_frame [of None]
    by (cases "subStep (breakState None, False, [])") (simp_all add: SUB_STEPS_def subSteps_numeral)
  have 2: "firstHitId (turnInfo (brokenState None)) = Some 1"
    using t [of _ _ _ _ _ _ _ _ _ "breakState None" False "[]" _ _ _ 0 "breakState None" False "[]"
        1 SUB_STEPS "brokenState None" True "[]"]
      break_contact [of None] n z l break_frame [of None]
    by simp
  have 3: "firstHitId (turnInfo ((brokenState None)\<lparr>isMoving := True\<rparr>)) = Some 1"
    using 2 by simp
  have 4: "firstHitId (turnInfo (brokenState (Some 3))) = Some 3"
    using t [of _ _ _ _ _ _ _ _ _ "breakState (Some 3)" False "[]" _ _ _ _ _ _ _
        3 SUB_STEPS "brokenState (Some 3)" True "[]"]
      m break_frame [of "Some 3"]
    by simp
  have 5: "firstHitId (turnInfo ((brokenState (Some 3))\<lparr>isMoving := True\<rparr>)) = Some 3"
    using 4 by simp
  from p 1 n break_contact [of None] e break_frame 2 break_update 3 m 4 5 show ?thesis
    by simp
qed


lemma subStep_undisplaced:
  assumes st: "subStep (s, mv, ps) = Some (s', mv', ps')"
    and i: "i < length (balls s')"
    and a: "active (balls s' ! i)"
    and p: "\<not> (placingBallRef s \<and> id_b (balls s' ! i) = 0)"
    and x: "x_b (balls s' ! i) = x_b (fst (stepBalls (placingBallRef s) (balls s)) ! i)"
    and y: "y_b (balls s' ! i) = y_b (fst (stepBalls (placingBallRef s) (balls s)) ! i)"
  shows "BALL_RADIUS \<le> x_b (balls s' ! i) \<and> x_b (balls s' ! i) \<le> TABLE_WIDTH - BALL_RADIUS
       \<and> BALL_RADIUS \<le> y_b (balls s' ! i) \<and> y_b (balls s' ! i) \<le> TABLE_HEIGHT - BALL_RADIUS"
proof -
  define bs1 where "bs1 = fst (stepBalls (placingBallRef s) (balls s))"
  from subStep_parts(1) [OF st] obtain h' where
    "outerLoop (placingBallRef s) bs1 (firstHitId (turnInfo s)) = Some (balls s', h')"
    unfolding bs1_def by blast
  then have m: "map tag (balls s') = map tag bs1"
    unfolding outerLoop_def by (rule outerFrom_tag)
  then have l: "length (balls s') = length bs1"
    by (rule map_eq_imp_length_eq)
  have "map tag (balls s') ! i = map tag bs1 ! i"
    by (simp only: m)
  with i l have "tag (balls s' ! i) = tag (bs1 ! i)"
    by simp
  with a p have a1: "active (bs1 ! i)" and p1: "\<not> (placingBallRef s \<and> id_b (bs1 ! i) = 0)"
    by (simp_all add: tag_def)
  have "bs1 ! i \<in> set (fst (stepBalls (placingBallRef s) (balls s)))"
    using i l by (simp add: bs1_def)
  from stepBalls_bounds [OF this a1 p1] x y show ?thesis
    by (simp add: bs1_def)
qed

text \<open>
  Claim C5, amended. The update of a ball in a sub-step ends with the cushion clamp, so it
  leaves the centre within \<open>[BALL_RADIUS, dimension - BALL_RADIUS]\<close> on both axes. At the
  end of every sub-step, every active ball (the cue ball during placement apart, which is
  skipped) whose position the separation of overlapping balls has not changed lies
  within these bounds; when no two balls are in contact this holds for all of them. The
  separation comes after the clamp and is not clamped again.
\<close>

theorem in_bounds_unless_displaced:
  "(BALL_RADIUS \<le> x_b (fst (moveBall b0)) \<and> x_b (fst (moveBall b0)) \<le> TABLE_WIDTH - BALL_RADIUS
    \<and> BALL_RADIUS \<le> y_b (fst (moveBall b0)) \<and> y_b (fst (moveBall b0)) \<le> TABLE_HEIGHT - BALL_RADIUS)
   \<and> (subStep (s, mv, ps) = Some (s', mv', ps') \<and> i < length (balls s')
        \<and> active (balls s' ! i) \<and> \<not> (placingBallRef s \<and> id_b (balls s' ! i) = 0)
        \<and> x_b (balls s' ! i) = x_b (fst (stepBalls (placingBallRef s) (balls s)) ! i)
        \<and> y_b (balls s' ! i) = y_b (fst (stepBalls (placingBallRef s) (balls s)) ! i) \<longrightarrow>
        BALL_RADIUS \<le> x_b (balls s' ! i) \<and> x_b (balls s' ! i) \<le> TABLE_WIDTH - BALL_RADIUS
        \<and> BALL_RADIUS \<le> y_b (balls s' ! i) \<and> y_b (balls s' ! i) \<le> TABLE_HEIGHT - BALL_RADIUS)
   \<and> (noContacts (placingBallRef s) (fst (stepBalls (placingBallRef s) (balls s))) \<longrightarrow>
        (\<exists>s' mv' ps'. subStep (s, mv, ps) = Some (s', mv', ps')
           \<and> (\<forall>b\<in>set (balls s'). active b \<and> \<not> (placingBallRef s \<and> id_b b = 0) \<longrightarrow>
                 BALL_RADIUS \<le> x_b b \<and> x_b b \<le> TABLE_WIDTH - BALL_RADIUS
                 \<and> BALL_RADIUS \<le> y_b b \<and> y_b b \<le> TABLE_HEIGHT - BALL_RADIUS)))"
proof (intro conjI impI)
  assume n: "noContacts (placingBallRef s) (fst (stepBalls (placingBallRef s) (balls s)))"
  obtain bs1 m1 p1 where st: "stepBalls (placingBallRef s) (balls s) = (bs1, m1, p1)"
    by (cases "stepBalls (placingBallRef s) (balls s)")
  have o: "outerLoop (placingBallRef s) bs1 h = Some (bs1, h)" for h
    using n st by (simp add: outerLoop_def outerFrom_noContact)
  have b: "\<forall>b\<in>set bs1. active b \<and> \<not> (placingBallRef s \<and> id_b b = 0) \<longrightarrow>
      BALL_RADIUS \<le> x_b b \<and> x_b b \<le> TABLE_WIDTH - BALL_RADIUS
      \<and> BALL_RADIUS \<le> y_b b \<and> y_b b \<le> TABLE_HEIGHT - BALL_RADIUS"
    using stepBalls_bounds [of _ "placingBallRef s" "balls s"] st by auto
  show "\<exists>s' mv' ps'. subStep (s, mv, ps) = Some (s', mv', ps')
      \<and> (\<forall>b\<in>set (balls s'). active b \<and> \<not> (placingBallRef s \<and> id_b b = 0) \<longrightarrow>
            BALL_RADIUS \<le> x_b b \<and> x_b b \<le> TABLE_WIDTH - BALL_RADIUS
            \<and> BALL_RADIUS \<le> y_b b \<and> y_b b \<le> TABLE_HEIGHT - BALL_RADIUS)"
    using b by (simp add: subStep_def st o Let_def)
next
  assume a: "subStep (s, mv, ps) = Some (s', mv', ps') \<and> i < length (balls s')
        \<and> active (balls s' ! i) \<and> \<not> (placingBallRef s \<and> id_b (balls s' ! i) = 0)
        \<and> x_b (balls s' ! i) = x_b (fst (stepBalls (placingBallRef s) (balls s)) ! i)
        \<and> y_b (balls s' ! i) = y_b (fst (stepBalls (placingBallRef s) (balls s)) ! i)"
  then have b: "BALL_RADIUS \<le> x_b (balls s' ! i) \<and> x_b (balls s' ! i) \<le> TABLE_WIDTH - BALL_RADIUS
       \<and> BALL_RADIUS \<le> y_b (balls s' ! i) \<and> y_b (balls s' ! i) \<le> TABLE_HEIGHT - BALL_RADIUS"
    by (intro subStep_undisplaced [of s mv ps s' mv' ps' i]) simp_all
  from b show "BALL_RADIUS \<le> x_b (balls s' ! i)" by simp
  from b show "x_b (balls s' ! i) \<le> TABLE_WIDTH - BALL_RADIUS" by simp
  from b show "BALL_RADIUS \<le> y_b (balls s' ! i)" by simp
  from b show "y_b (balls s' ! i) \<le> TABLE_HEIGHT - BALL_RADIUS" by simp
qed (simp_all add: moveBall_bounds)

lemma settle_stepBalls:
  "fst (stepBalls False (balls settleState)) =
     ballAt 0 CUE (3599 / 100) 200 True
     # ballAt 1 SOLID 12 200 True
     # map (\<lambda>i. ballAt i SOLID 20 20 False) [2, 3]
     @ ballAt 9 NINE 600 200 True
     # map (\<lambda>i. ballAt i SOLID 20 20 False) [5, 6, 7, 8, 4]"
  by (simp add: settleState_def settleBalls_def tableOf_def ballAt_def
      SUB_STEPS_def stepBall_def skipped_def moveBall_def integrate_def walls_def wallLeft_def
      wallRight_def wallTop_def wallBottom_def pocketed_def POCKETS_def POCKET_RADIUS_def
      TABLE_WIDTH_def TABLE_HEIGHT_def BALL_RADIUS_def DECELERATION_def STOP_THRESHOLD_def
      Let_def power2_eq_square sqrt_facts)

lemma settle_subStep:
  "subStep (settleState, False, []) = Some (settleState\<lparr>balls := nudgedBalls\<rparr>, False, [])"
  by (simp add: settleState_def settleBalls_def nudgedBalls_def phys_unfold sqrt_facts)

theorem in_bounds_unless_displaced_witness:
  "subStep (settleState, False, []) = Some (settleState\<lparr>balls := nudgedBalls\<rparr>, False, [])
   \<and> nudgedBalls ! 4 = ballAt 9 NINE 600 200 True
   \<and> fst (stepBalls False (balls settleState)) ! 4 = ballAt 9 NINE 600 200 True
   \<and> BALL_RADIUS \<le> x_b (nudgedBalls ! 4) \<and> x_b (nudgedBalls ! 4) \<le> TABLE_WIDTH - BALL_RADIUS
   \<and> BALL_RADIUS \<le> y_b (nudgedBalls ! 4) \<and> y_b (nudgedBalls ! 4) \<le> TABLE_HEIGHT - BALL_RADIUS
   \<and> fst (stepBalls False (balls settleState)) ! 1 = ballAt 1 SOLID 12 200 True
   \<and> nudgedBalls ! 1 = ballAt 1 SOLID (2399 / 200) 200 True
   \<and> noContacts (placingBallRef shotState)
        (fst (stepBalls (placingBallRef shotState) (balls shotState)))
   \<and> subStep (shotState, False, []) = Some (shotState\<lparr>balls := movedBalls\<rparr>, True, [])
   \<and> list_all (\<lambda>b. BALL_RADIUS \<le> x_b b \<and> x_b b \<le> TABLE_WIDTH - BALL_RADIUS
             \<and> BALL_RADIUS \<le> y_b b \<and> y_b b \<le> TABLE_HEIGHT - BALL_RADIUS)
        (filter active movedBalls)"
proof -
  note t = in_bounds_unless_displaced
  have q: "placingBallRef settleState = False"
    by (simp add: settleState_def tableOf_def)
  have n4: "nudgedBalls ! 4 = ballAt 9 NINE 600 200 True"
    and n1: "nudgedBalls ! 1 = ballAt 1 SOLID (2399 / 200) 200 True"
    and l: "length nudgedBalls = 10"
    by (simp_all add: nudgedBalls_def)
  have s4: "fst (stepBalls False (balls settleState)) ! 4 = ballAt 9 NINE 600 200 True"
    and s1: "fst (stepBalls False (balls settleState)) ! 1 = ballAt 1 SOLID 12 200 True"
    by (simp_all add: settle_stepBalls)
  have a4: "active (ballAt 9 NINE 600 200 True)" "id_b (ballAt 9 NINE 600 200 True) = 9"
    by (simp_all add: ballAt_def)
  have b4: "BALL_RADIUS \<le> x_b (nudgedBalls ! 4) \<and> x_b (nudgedBalls ! 4) \<le> TABLE_WIDTH - BALL_RADIUS
       \<and> BALL_RADIUS \<le> y_b (nudgedBalls ! 4) \<and> y_b (nudgedBalls ! 4) \<le> TABLE_HEIGHT - BALL_RADIUS"
    using t [THEN conjunct2, THEN conjunct1, rule_format,
        of settleState False "[]" "settleState\<lparr>balls := nudgedBalls\<rparr>" False "[]" 4]
      settle_subStep q n4 s4 a4 l
    by simp
  have p: "placingBallRef shotState = False"
    by (simp add: shotState_def tableOf_def)
  have n: "noContacts (placingBallRef shotState)
      (fst (stepBalls (placingBallRef shotState) (balls shotState)))"
    by (simp add: p shot_stepBalls shot_noContacts)
  from t [THEN conjunct2, THEN conjunct2, rule_format, of shotState False "[]"] n
  have "\<forall>b\<in>set movedBalls. active b \<longrightarrow>
                 BALL_RADIUS \<le> x_b b \<and> x_b b \<le> TABLE_WIDTH - BALL_RADIUS
                 \<and> BALL_RADIUS \<le> y_b b \<and> y_b b \<le> TABLE_HEIGHT - BALL_RADIUS"
    by (simp add: shot_subStep p)
  then have "list_all (\<lambda>b. BALL_RADIUS \<le> x_b b \<and> x_b b \<le> TABLE_WIDTH - BALL_RADIUS
             \<and> BALL_RADIUS \<le> y_b b \<and> y_b b \<le> TABLE_HEIGHT - BALL_RADIUS)
            (filter active movedBalls)"
    by (simp add: list_all_iff)
  with settle_subStep n4 s4 b4 s1 n1 n shot_subStep show ?thesis
    by simp
qed

end
